theory Spec2Isabelle
  imports Complex_Main
begin

section \<open>Systematic-variation dataset generator (generate_syst_dataset.py)\<close>

text \<open>
  Python floats are modelled as \<^typ>\<open>real\<close>, Python integers as \<^typ>\<open>int\<close>,
  exceptions as values of the type \<open>error\<close>. Single-precision values, as stored
  in a float32 column, are the type \<open>float32\<close>. The module-level constants of the
  script are the fields of the record \<open>config\<close>; \<open>module_config\<close> holds the values
  the script assigns to them. The process-wide random source is a sequence of
  standard-normal draws \<open>g\<close> together with the position of the next unused draw.
\<close>

subsection \<open>Errors\<close>

datatype error =
    ValueError
  | IndexError
  | OverflowError
  | ArrowInvalid
  | ArrowTypeError
  | FileNotFoundError
  | Raised string

text \<open>
  Sequencing of statements that may raise: the first exception ends the
  computation, otherwise the value is handed to the statements that follow.
\<close>

definition bind_result :: "error + 'a \<Rightarrow> ('a \<Rightarrow> error + 'b) \<Rightarrow> error + 'b" where
  "bind_result r k = (case r of Inl e \<Rightarrow> Inl e | Inr x \<Rightarrow> k x)"

subsection \<open>Configuration\<close>

definition INPUT_PARQUET :: string where
  "INPUT_PARQUET =
     ''/Users/avencastmini/PycharmProjects/EveNet/workspace/test_data/'' @
     ''Run3_output/data_Run3_test_run_pretrain_0.parquet''"

definition OUTPUT_JES_ONLY :: string where
  "OUTPUT_JES_ONLY = ''data_syst_JES_only.parquet''"

definition OUTPUT_MET_ONLY :: string where
  "OUTPUT_MET_ONLY = ''data_syst_MET_only.parquet''"

definition OUTPUT_JES_MET :: string where
  "OUTPUT_JES_MET = ''data_syst_JES_MET.parquet''"

record config =
  N_DATASETS_PER_TYPE :: nat
  BASE_SLICE :: nat
  JES_SIGMA :: real
  JES_MIN :: real
  JES_MAX :: real
  MET_LOGNORM_MEAN :: real
  MET_LOGNORM_SIGMA :: real
  MET_MIN :: real
  MET_MAX :: real

definition module_config :: config where
  "module_config =
     \<lparr> N_DATASETS_PER_TYPE = 50,
       BASE_SLICE = 8000000 div 50,
       JES_SIGMA = 0.01,
       JES_MIN = - 0.10,
       JES_MAX = 0.10,
       MET_LOGNORM_MEAN = 0.0,
       MET_LOGNORM_SIGMA = 1.0,
       MET_MIN = 0.0,
       MET_MAX = 5.0 \<rparr>"

subsection \<open>Sampling utilities\<close>

text \<open>
  \<open>np.random.normal(loc, scale)\<close> raises ValueError for a negative scale and
  otherwise returns \<open>loc + scale * z\<close> for the next standard-normal draw \<open>z\<close>;
  \<open>np.random.lognormal(mean, sigma)\<close> is the exponential of such a value.
  \<open>np.clip(a, a_min, a_max)\<close> is \<open>minimum(maximum(a, a_min), a_max)\<close>, also when
  \<open>a_min > a_max\<close>.
\<close>

definition np_random_normal ::
  "real \<Rightarrow> real \<Rightarrow> (nat \<Rightarrow> real) \<Rightarrow> nat \<Rightarrow> error + (real \<times> nat)" where
  "np_random_normal loc scale g p =
     (if scale < 0 then Inl ValueError else Inr (loc + scale * g p, Suc p))"

definition np_random_lognormal ::
  "real \<Rightarrow> real \<Rightarrow> (nat \<Rightarrow> real) \<Rightarrow> nat \<Rightarrow> error + (real \<times> nat)" where
  "np_random_lognormal mean sigma g p =
     (if sigma < 0 then Inl ValueError else Inr (exp (mean + sigma * g p), Suc p))"

definition np_clip :: "real \<Rightarrow> real \<Rightarrow> real \<Rightarrow> real" where
  "np_clip a a_min a_max = min (max a a_min) a_max"

definition sample_jes :: "config \<Rightarrow> (nat \<Rightarrow> real) \<Rightarrow> nat \<Rightarrow> error + (real \<times> nat)" where
  "sample_jes cfg g p =
     bind_result (np_random_normal 0.0 (JES_SIGMA cfg) g p) (\<lambda>(jes, p1).
     Inr (np_clip jes (JES_MIN cfg) (JES_MAX cfg), p1))"

definition sample_met ::
  "config \<Rightarrow> (nat \<Rightarrow> real) \<Rightarrow> nat \<Rightarrow> error + ((real \<times> real) \<times> nat)" where
  "sample_met cfg g p =
     bind_result (np_random_lognormal (MET_LOGNORM_MEAN cfg) (MET_LOGNORM_SIGMA cfg) g p)
       (\<lambda>(px, p1).
     bind_result (np_random_lognormal (MET_LOGNORM_MEAN cfg) (MET_LOGNORM_SIGMA cfg) g p1)
       (\<lambda>(py, p2).
     Inr ((np_clip px (MET_MIN cfg) (MET_MAX cfg),
           np_clip py (MET_MIN cfg) (MET_MAX cfg)), p2)))"

subsection \<open>Systematic shift builders\<close>

text \<open>
  A numpy array is its shape and its elements in row-major order. \<open>x[..., k]\<close>
  raises IndexError on a 0-dimensional array and when \<open>k\<close> is not below the
  length of the last axis; otherwise it drops the last axis, keeping element \<open>k\<close>
  of every row.
\<close>

record 'a ndarray =
  shape :: "nat list"
  data :: "'a list"

definition wf_ndarray :: "'a ndarray \<Rightarrow> bool" where
  "wf_ndarray x = (length (data x) = prod_list (shape x))"

definition index_last :: "'a ndarray \<Rightarrow> nat \<Rightarrow> error + 'a ndarray" where
  "index_last x k =
     (case rev (shape x) of
        [] \<Rightarrow> Inl IndexError
      | d # outer \<Rightarrow>
          if d \<le> k then Inl IndexError
          else Inr \<lparr> shape = rev outer,
                     data = map (\<lambda>i. data x ! (i * d + k)) [0..<prod_list (rev outer)] \<rparr>)"

definition eq_scalar :: "real ndarray \<Rightarrow> real \<Rightarrow> bool ndarray" where
  "eq_scalar x c = \<lparr> shape = shape x, data = map (\<lambda>v. v = c) (data x) \<rparr>"

text \<open>Row \<open>i\<close> of an array: the \<open>i\<close>-th run of elements along the last axis.\<close>

definition row_of :: "'a ndarray \<Rightarrow> nat \<Rightarrow> 'a list" where
  "row_of x i = take (last (shape x)) (drop (i * last (shape x)) (data x))"

record shift_entry =
  shift_features :: "string list"
  shift_select :: "real ndarray \<Rightarrow> error + bool ndarray"
  shift_apply :: "real \<Rightarrow> real \<Rightarrow> real"
  shift_scale :: real

type_synonym object_shifts = "(string \<times> shift_entry) list"

definition make_jes_object_shift :: "real \<Rightarrow> object_shifts" where
  "make_jes_object_shift jes =
     [(''jet_pt'',
       \<lparr> shift_features = [''pt''],
         shift_select = (\<lambda>x. bind_result (index_last x 5) (\<lambda>col. Inr (eq_scalar col 0))),
         shift_apply = (\<lambda>v s. v * (1.0 + s)),
         shift_scale = jes \<rparr>)]"

subsection \<open>Arrow tables\<close>

text \<open>
  A single-precision value is finite or an infinity. The conversion of a Python
  float to single precision rounds to the nearest representable value, a tie
  going to the one with an even significand: the spacing of the representable
  values around \<open>x\<close> is \<open>2\<close> to the power \<open>e - 23\<close>, where \<open>e\<close> is the binary exponent
  of \<open>x\<close>, not below \<open>- 126\<close> (the subnormal range) and not above \<open>127\<close>; a result
  of magnitude \<open>2 ^ 128\<close> or more is an infinity.
\<close>

datatype float32 = F32 real | F32_inf | F32_neg_inf

definition round_half_even :: "real \<Rightarrow> int" where
  "round_half_even y =
     (let f = \<lfloor>y\<rfloor>; d = y - of_int f
      in if d < 1 / 2 then f
         else if 1 / 2 < d then f + 1
         else if even f then f else f + 1)"

fun f32_exponent_below :: "nat \<Rightarrow> real \<Rightarrow> int" where
  "f32_exponent_below 0 a = - 126"
| "f32_exponent_below (Suc k) a =
     (if 2 powi (int k - 125) \<le> a then int k - 125 else f32_exponent_below k a)"

definition f32_exponent :: "real \<Rightarrow> int" where
  "f32_exponent a = f32_exponent_below 253 a"

definition to_float32 :: "real \<Rightarrow> float32" where
  "to_float32 x =
     (if x = 0 then F32 0
      else let q = 2 powi (f32_exponent \<bar>x\<bar> - 23);
               r = of_int (round_half_even (x / q)) * q
           in if 2 ^ 128 \<le> r then F32_inf
              else if r \<le> - (2 ^ 128) then F32_neg_inf
              else F32 r)"

text \<open>
  A pyarrow table is its row count and its ordered columns; a column is a field
  name, a storage type and one cell per row. \<open>pa.array(xs, type=pa.float32())\<close>
  converts every Python float to single precision.
  \<open>pa.array(xs, type=pa.int64())\<close> raises OverflowError when an
  element does not fit in 64 signed bits. \<open>Table.append_column\<close> raises ArrowInvalid
  when the length of the new column differs from the row count of the table.
\<close>

datatype dtype = Float32 | Int64 | Null_type | Other_type string

datatype cell = Float_val float32 | Int_val int | Null_val | Other_val string

record column =
  col_name :: string
  col_type :: dtype
  col_values :: "cell list"

record table =
  num_rows :: nat
  columns :: "column list"

definition wf_table :: "table \<Rightarrow> bool" where
  "wf_table t = list_all (\<lambda>c. length (col_values c) = num_rows t) (columns t)"

type_synonym arrow_array = "dtype \<times> cell list"

definition pa_array_float32 :: "real list \<Rightarrow> error + arrow_array" where
  "pa_array_float32 xs = Inr (Float32, map (\<lambda>x. Float_val (to_float32 x)) xs)"

definition fits_int64 :: "int \<Rightarrow> bool" where
  "fits_int64 v = (- (2 ^ 63) \<le> v \<and> v < 2 ^ 63)"

definition pa_array_int64 :: "int list \<Rightarrow> error + arrow_array" where
  "pa_array_int64 xs =
     (if list_all fits_int64 xs then Inr (Int64, map Int_val xs) else Inl OverflowError)"

definition append_column :: "table \<Rightarrow> string \<Rightarrow> arrow_array \<Rightarrow> error + table" where
  "append_column t nm arr =
     (if length (snd arr) \<noteq> num_rows t then Inl ArrowInvalid
      else Inr (t\<lparr>columns := columns t @
                  [\<lparr>col_name = nm, col_type = fst arr, col_values = snd arr\<rparr>]\<rparr>))"

text \<open>\<open>table.slice(offset, length)\<close>: the rows from \<open>offset\<close>, at most \<open>length\<close> of them.\<close>

definition table_slice :: "table \<Rightarrow> nat \<Rightarrow> nat \<Rightarrow> table" where
  "table_slice t offset len =
     \<lparr> num_rows = min len (num_rows t - offset),
       columns = map (\<lambda>c. c\<lparr>col_values := take len (drop offset (col_values c))\<rparr>)
                     (columns t) \<rparr>"

text \<open>\<open>table.column(name)\<close>: the one column of that name, if there is exactly one.\<close>

definition column_named :: "table \<Rightarrow> string \<Rightarrow> column option" where
  "column_named t nm =
     (case filter (\<lambda>c. col_name c = nm) (columns t) of [c] \<Rightarrow> Some c | _ \<Rightarrow> None)"

subsection \<open>Concatenation with schema unification\<close>

text \<open>
  \<open>pa.concat_tables(tables, promote_options="default")\<close> raises ArrowInvalid on
  an empty list and on a table whose field names are not distinct. It unifies the
  schemas in order: a field is matched by name, a field of a new name is
  appended, two fields of one name must have the same type unless one of them is
  the null type. Every table is then promoted to the unified schema, a missing
  column being filled with nulls, and the columns are concatenated in table order.
\<close>

type_synonym schema = "(string \<times> dtype) list"

definition table_schema :: "table \<Rightarrow> schema" where
  "table_schema t = map (\<lambda>c. (col_name c, col_type c)) (columns t)"

fun merge_field :: "string \<times> dtype \<Rightarrow> schema \<Rightarrow> error + schema" where
  "merge_field f [] = Inr [f]"
| "merge_field f (f' # fs) =
     (if fst f = fst f' then
        (if snd f = snd f' \<or> snd f = Null_type then Inr (f' # fs)
         else if snd f' = Null_type then Inr (f # fs)
         else Inl ArrowTypeError)
      else (case merge_field f fs of
              Inl e \<Rightarrow> Inl e
            | Inr fs' \<Rightarrow> Inr (f' # fs')))"

fun merge_schema :: "schema \<Rightarrow> schema \<Rightarrow> error + schema" where
  "merge_schema acc [] = Inr acc"
| "merge_schema acc (f # fs) =
     (case merge_field f acc of
        Inl e \<Rightarrow> Inl e
      | Inr acc' \<Rightarrow> merge_schema acc' fs)"

fun unify_rest :: "schema \<Rightarrow> schema list \<Rightarrow> error + schema" where
  "unify_rest acc [] = Inr acc"
| "unify_rest acc (s # ss) =
     (if \<not> distinct (map fst s) then Inl ArrowInvalid
      else (case merge_schema acc s of
              Inl e \<Rightarrow> Inl e
            | Inr acc' \<Rightarrow> unify_rest acc' ss))"

fun unify_schemas :: "schema list \<Rightarrow> error + schema" where
  "unify_schemas [] = Inl ArrowInvalid"
| "unify_schemas (s # ss) =
     (if \<not> distinct (map fst s) then Inl ArrowInvalid else unify_rest s ss)"

definition promoted_values :: "table \<Rightarrow> string \<Rightarrow> cell list" where
  "promoted_values t nm =
     (case find (\<lambda>c. col_name c = nm) (columns t) of
        None \<Rightarrow> replicate (num_rows t) Null_val
      | Some c \<Rightarrow> col_values c)"

definition concat_column :: "table list \<Rightarrow> string \<times> dtype \<Rightarrow> column" where
  "concat_column ts f =
     \<lparr> col_name = fst f, col_type = snd f,
       col_values = concat (map (\<lambda>t. promoted_values t (fst f)) ts) \<rparr>"

definition concat_tables :: "table list \<Rightarrow> error + table" where
  "concat_tables ts =
     (case unify_schemas (map table_schema ts) of
        Inl e \<Rightarrow> Inl e
      | Inr sch \<Rightarrow>
          Inr \<lparr> num_rows = sum_list (map num_rows ts),
                columns = map (concat_column ts) sch \<rparr>)"

subsection \<open>Bookkeeping columns\<close>

definition add_syst_columns ::
  "table \<Rightarrow> real \<Rightarrow> real \<Rightarrow> real \<Rightarrow> int \<Rightarrow> error + table" where
  "add_syst_columns table0 jes met_px met_py tag =
     (let n = num_rows table0 in
      bind_result (pa_array_float32 (replicate n jes)) (\<lambda>a1.
      bind_result (append_column table0 ''syst_jes'' a1) (\<lambda>table1.
      bind_result (pa_array_float32 (replicate n met_px)) (\<lambda>a2.
      bind_result (append_column table1 ''syst_met_px'' a2) (\<lambda>table2.
      bind_result (pa_array_float32 (replicate n met_py)) (\<lambda>a3.
      bind_result (append_column table2 ''syst_met_py'' a3) (\<lambda>table3.
      bind_result (pa_array_int64 (replicate n tag)) (\<lambda>a4.
      append_column table3 ''syst_tag'' a4))))))))"

text \<open>
  Four bookkeeping columns of \<open>n\<close> rows, holding the given single-precision values
  and the given tag.
\<close>

definition syst_columns ::
  "nat \<Rightarrow> float32 \<Rightarrow> float32 \<Rightarrow> float32 \<Rightarrow> int \<Rightarrow> column list" where
  "syst_columns n jes met_px met_py tag =
     [\<lparr>col_name = ''syst_jes'', col_type = Float32,
        col_values = replicate n (Float_val jes)\<rparr>,
      \<lparr>col_name = ''syst_met_px'', col_type = Float32,
        col_values = replicate n (Float_val met_px)\<rparr>,
      \<lparr>col_name = ''syst_met_py'', col_type = Float32,
        col_values = replicate n (Float_val met_py)\<rparr>,
      \<lparr>col_name = ''syst_tag'', col_type = Int64,
        col_values = replicate n (Int_val tag)\<rparr>]"

subsection \<open>Main\<close>

text \<open>
  The variant applier \<open>SystematicsApplier.apply(table, object_shifts, met_shift,
  recompute_globals)\<close> is imported from another module; it is a parameter of the
  model, a function that returns a table or raises. The file system is a map from
  paths to tables: \<open>pq.read_table\<close> raises on a missing path, \<open>pq.write_table\<close>
  stores the table under the path. A \<open>for i in range(n)\<close> loop runs its body
  for \<open>i = 0, \<dots>, n - 1\<close> and stops at the first exception. The state of a
  generation loop is the list of tables collected so far and the position of the
  random source. An exception that leaves \<open>main\<close> ends the run with the file
  system as it is at that moment. Progress output is left out.
\<close>

type_synonym met_shift = "(string \<times> real) list"

type_synonym applier =
  "table \<Rightarrow> object_shifts option \<Rightarrow> met_shift option \<Rightarrow> bool \<Rightarrow> error + table"

type_synonym disk = "string \<rightharpoonup> table"

definition read_table :: "disk \<Rightarrow> string \<Rightarrow> error + table" where
  "read_table d path = (case d path of None \<Rightarrow> Inl FileNotFoundError | Some t \<Rightarrow> Inr t)"

definition write_table :: "table \<Rightarrow> string \<Rightarrow> disk \<Rightarrow> disk" where
  "write_table t path d = d(path \<mapsto> t)"

definition or_abort ::
  "error + 'a \<Rightarrow> disk \<Rightarrow> ('a \<Rightarrow> error option \<times> disk) \<Rightarrow> error option \<times> disk" where
  "or_abort r d k = (case r of Inl e \<Rightarrow> (Some e, d) | Inr x \<Rightarrow> k x)"

fun for_range :: "nat list \<Rightarrow> (nat \<Rightarrow> 's \<Rightarrow> error + 's) \<Rightarrow> 's \<Rightarrow> error + 's" where
  "for_range [] body s = Inr s"
| "for_range (i # rest) body s = bind_result (body i s) (for_range rest body)"

type_synonym loop_state = "table list \<times> nat"

definition jes_only_cycle ::
  "config \<Rightarrow> applier \<Rightarrow> (nat \<Rightarrow> real) \<Rightarrow> table \<Rightarrow> nat \<Rightarrow> loop_state \<Rightarrow> error + loop_state" where
  "jes_only_cycle cfg syst g base i st =
     bind_result (sample_jes cfg g (snd st)) (\<lambda>(jes, p1).
     bind_result (syst base (Some (make_jes_object_shift jes)) None True) (\<lambda>shifted.
     bind_result (add_syst_columns shifted jes 0.0 0.0 (int i)) (\<lambda>shifted'.
     Inr (fst st @ [shifted'], p1))))"

definition met_only_cycle ::
  "config \<Rightarrow> applier \<Rightarrow> (nat \<Rightarrow> real) \<Rightarrow> table \<Rightarrow> nat \<Rightarrow> loop_state \<Rightarrow> error + loop_state" where
  "met_only_cycle cfg syst g base i st =
     bind_result (sample_met cfg g (snd st)) (\<lambda>((px, py), p1).
     bind_result (syst base None (Some [(''px'', px), (''py'', py)]) True) (\<lambda>shifted.
     bind_result (add_syst_columns shifted 0.0 px py (int i)) (\<lambda>shifted'.
     Inr (fst st @ [shifted'], p1))))"

definition jes_met_cycle ::
  "config \<Rightarrow> applier \<Rightarrow> (nat \<Rightarrow> real) \<Rightarrow> table \<Rightarrow> nat \<Rightarrow> loop_state \<Rightarrow> error + loop_state" where
  "jes_met_cycle cfg syst g base i st =
     bind_result (sample_jes cfg g (snd st)) (\<lambda>(jes, p1).
     bind_result (sample_met cfg g p1) (\<lambda>((px, py), p2).
     bind_result (syst base (Some (make_jes_object_shift jes))
                    (Some [(''px'', px), (''py'', py)]) True) (\<lambda>shifted.
     bind_result (add_syst_columns shifted jes px py (int i)) (\<lambda>shifted'.
     Inr (fst st @ [shifted'], p2)))))"

definition main :: "config \<Rightarrow> applier \<Rightarrow> (nat \<Rightarrow> real) \<Rightarrow> disk \<Rightarrow> error option \<times> disk" where
  "main cfg syst g d =
     or_abort (read_table d INPUT_PARQUET) d (\<lambda>base0.
     let base = table_slice base0 0 (BASE_SLICE cfg) in
     or_abort (for_range [0..<N_DATASETS_PER_TYPE cfg]
                 (jes_only_cycle cfg syst g base) ([], 0)) d (\<lambda>(tables_jes_only, p1).
     or_abort (concat_tables tables_jes_only) d (\<lambda>table_jes_only.
     let d1 = write_table table_jes_only OUTPUT_JES_ONLY d in
     or_abort (for_range [0..<N_DATASETS_PER_TYPE cfg]
                 (met_only_cycle cfg syst g base) ([], p1)) d1 (\<lambda>(tables_met_only, p2).
     or_abort (concat_tables tables_met_only) d1 (\<lambda>table_met_only.
     let d2 = write_table table_met_only OUTPUT_MET_ONLY d1 in
     or_abort (for_range [0..<N_DATASETS_PER_TYPE cfg]
                 (jes_met_cycle cfg syst g base) ([], p2)) d2 (\<lambda>(tables_jes_met, p3).
     or_abort (concat_tables tables_jes_met) d2 (\<lambda>table_jes_met.
     let d3 = write_table table_jes_met OUTPUT_JES_MET d2 in
     (None, d3))))))))"

text \<open>
  Cycle \<open>i\<close> of a loop started in state \<open>s0\<close> raises \<open>e\<close>: the cycles before it
  complete and the body of cycle \<open>i\<close> raises.
\<close>

definition cycle_raises :: "(nat \<Rightarrow> 's \<Rightarrow> error + 's) \<Rightarrow> 's \<Rightarrow> nat \<Rightarrow> error \<Rightarrow> bool" where
  "cycle_raises body s0 i e =
     (case for_range [0..<i] body s0 of Inl _ \<Rightarrow> False | Inr s \<Rightarrow> body i s = Inl e)"

text \<open>
  The configuration errors the design document names: a sigma that is not
  positive, or a clipping interval whose lower end is not below its upper end.
\<close>

definition config_invalid :: "config \<Rightarrow> bool" where
  "config_invalid cfg =
     (JES_SIGMA cfg \<le> 0 \<or> MET_LOGNORM_SIGMA cfg \<le> 0 \<or>
      JES_MIN cfg \<ge> JES_MAX cfg \<or> MET_MIN cfg \<ge> MET_MAX cfg)"

subsection \<open>Sample inputs\<close>

text \<open>
  A two-row array of objects with six features each, the first a jet; a two-row
  base table and a base table without rows; the configuration of the script with
  two cycles per family, the same with the JES clipping bounds exchanged, and the
  same with a negative JES sigma; a test double of the variant applier that
  returns its input, one that raises, and one that raises on a MET shift only;
  two sources of randomness that agree on their first twelve draws.
\<close>

definition demo_objects :: "real ndarray" where
  "demo_objects = \<lparr> shape = [2, 6], data = [10, 1, 2, 3, 4, 0, 20, 1, 2, 3, 4, 1] \<rparr>"

definition demo_base :: table where
  "demo_base =
     \<lparr> num_rows = 2,
       columns = [\<lparr>col_name = ''pt'', col_type = Float32,
                   col_values = [Float_val (F32 10), Float_val (F32 20)]\<rparr>] \<rparr>"

definition empty_base :: table where
  "empty_base =
     \<lparr> num_rows = 0,
       columns = [\<lparr>col_name = ''pt'', col_type = Float32, col_values = []\<rparr>] \<rparr>"

definition demo_config :: config where
  "demo_config = module_config\<lparr>N_DATASETS_PER_TYPE := 2\<rparr>"

definition inverted_config :: config where
  "inverted_config = demo_config\<lparr>JES_MIN := 0.10, JES_MAX := - 0.10\<rparr>"

definition negative_sigma_config :: config where
  "negative_sigma_config = demo_config\<lparr>JES_SIGMA := - 0.01\<rparr>"

definition identity_applier :: applier where
  "identity_applier t os ms recompute_globals = Inr t"

definition failing_applier :: applier where
  "failing_applier t os ms recompute_globals = Inl (Raised ''apply'')"

definition met_failing_applier :: applier where
  "met_failing_applier t os ms recompute_globals =
     (case ms of None \<Rightarrow> Inr t | Some _ \<Rightarrow> Inl (Raised ''met''))"

definition zero_draws :: "nat \<Rightarrow> real" where
  "zero_draws i = 0"

definition late_draws :: "nat \<Rightarrow> real" where
  "late_draws i = (if i < 12 then 0 else 1)"

definition demo_disk :: disk where
  "demo_disk = [INPUT_PARQUET \<mapsto> demo_base]"

text \<open>The sample base table with the bookkeeping columns for given parameters.\<close>

definition demo_annotated :: "float32 \<Rightarrow> float32 \<Rightarrow> float32 \<Rightarrow> int \<Rightarrow> table" where
  "demo_annotated jes met_px met_py tag =
     \<lparr> num_rows = 2,
       columns = [\<lparr>col_name = ''pt'', col_type = Float32,
                   col_values = [Float_val (F32 10), Float_val (F32 20)]\<rparr>,
                  \<lparr>col_name = ''syst_jes'', col_type = Float32,
                   col_values = [Float_val jes, Float_val jes]\<rparr>,
                  \<lparr>col_name = ''syst_met_px'', col_type = Float32,
                   col_values = [Float_val met_px, Float_val met_px]\<rparr>,
                  \<lparr>col_name = ''syst_met_py'', col_type = Float32,
                   col_values = [Float_val met_py, Float_val met_py]\<rparr>,
                  \<lparr>col_name = ''syst_tag'', col_type = Int64,
                   col_values = [Int_val tag, Int_val tag]\<rparr>] \<rparr>"

text \<open>
  The family output table of two cycles over the sample base table, both cycles
  with the same sampled parameters.
\<close>

definition demo_family :: "float32 \<Rightarrow> float32 \<Rightarrow> float32 \<Rightarrow> table" where
  "demo_family jes met_px met_py =
     \<lparr> num_rows = 4,
       columns = [\<lparr>col_name = ''pt'', col_type = Float32,
                   col_values = [Float_val (F32 10), Float_val (F32 20),
                                 Float_val (F32 10), Float_val (F32 20)]\<rparr>,
                  \<lparr>col_name = ''syst_jes'', col_type = Float32,
                   col_values = replicate 4 (Float_val jes)\<rparr>,
                  \<lparr>col_name = ''syst_met_px'', col_type = Float32,
                   col_values = replicate 4 (Float_val met_px)\<rparr>,
                  \<lparr>col_name = ''syst_met_py'', col_type = Float32,
                   col_values = replicate 4 (Float_val met_py)\<rparr>,
                  \<lparr>col_name = ''syst_tag'', col_type = Int64,
                   col_values = [Int_val 0, Int_val 0, Int_val 1, Int_val 1]\<rparr>] \<rparr>"

section \<open>Properties\<close>

subsection \<open>Sequencing and arrays\<close>

lemma bind_result_Inr [simp]: "bind_result (Inr x) k = k x"
  by (simp add: bind_result_def)

lemma bind_result_Inl [simp]: "bind_result (Inl e) k = Inl e"
  by (simp add: bind_result_def)

lemma bind_result_eq_Inr:
  "bind_result r k = Inr y \<longleftrightarrow> (\<exists>x. r = Inr x \<and> k x = Inr y)"
  by (cases r) simp_all

lemma or_abort_Inr [simp]: "or_abort (Inr x) d k = k x"
  by (simp add: or_abort_def)

lemma or_abort_Inl [simp]: "or_abort (Inl e) d k = (Some e, d)"
  by (simp add: or_abort_def)

lemma row_index_bound:
  fixes i d k n :: nat
  assumes "i < n" "k < d"
  shows "i * d + k < n * d"
proof -
  have "i * d + k < i * d + d" using assms by simp
  also have "\<dots> = Suc i * d" by simp
  also have "\<dots> \<le> n * d" using assms by (intro mult_le_mono1) simp
  finally show ?thesis .
qed

lemma row_of_nth:
  assumes "wf_ndarray x" "shape x = ds @ [d]" "k < d" "i < prod_list ds"
  shows "row_of x i ! k = data x ! (i * d + k)"
proof -
  have len: "length (data x) = prod_list ds * d"
    using assms by (simp add: wf_ndarray_def)
  have "i * d + k < prod_list ds * d" using assms by (intro row_index_bound)
  then show ?thesis using assms len by (simp add: row_of_def)
qed

lemma index_last_ok:
  assumes "shape x = ds @ [d]" "k < d"
  shows "index_last x k = Inr \<lparr> shape = ds, data = map (\<lambda>i. data x ! (i * d + k)) [0..<prod_list ds] \<rparr>"
  using assms by (simp add: index_last_def)

subsection \<open>Bookkeeping columns\<close>

lemma add_syst_columns_eq:
  "add_syst_columns t jes px py tag =
     (if fits_int64 tag \<or> num_rows t = 0
      then Inr (t\<lparr>columns := columns t @
             syst_columns (num_rows t) (to_float32 jes) (to_float32 px) (to_float32 py) tag\<rparr>)
      else Inl OverflowError)"
  by (cases "num_rows t")
     (simp_all add: add_syst_columns_def Let_def pa_array_float32_def pa_array_int64_def
        append_column_def syst_columns_def list_all_iff)

subsection \<open>Loops\<close>

lemma for_range_collect:
  assumes step: "\<And>i ts p ts' p'. body i (ts, p) = Inr (ts', p') \<Longrightarrow> \<exists>t. ts' = ts @ [t] \<and> P i t"
  shows "for_range js body (ts, p) = Inr (ts', p') \<Longrightarrow> \<exists>new. ts' = ts @ new \<and> list_all2 P js new"
proof (induction js arbitrary: ts p)
  case Nil
  then show ?case by simp
next
  case (Cons j js)
  from Cons.prems obtain s1 where b: "body j (ts, p) = Inr s1"
    and r: "for_range js body s1 = Inr (ts', p')"
    by (auto simp: bind_result_eq_Inr)
  obtain ts1 p1 where s1: "s1 = (ts1, p1)" by (cases s1)
  from step [OF b [unfolded s1]] obtain t where t: "ts1 = ts @ [t]" "P j t" by blast
  from Cons.IH [OF r [unfolded s1]] obtain new where "ts' = ts1 @ new" "list_all2 P js new"
    by blast
  with t have "ts' = ts @ (t # new)" "list_all2 P (j # js) (t # new)" by simp_all
  then show ?case by blast
qed

lemma for_range_length:
  assumes step: "\<And>i ts p ts' p'. body i (ts, p) = Inr (ts', p') \<Longrightarrow> \<exists>t. ts' = ts @ [t]"
    and run: "for_range js body (ts, p) = Inr (ts', p')"
  shows "length ts' = length ts + length js"
proof -
  have "\<exists>new. ts' = ts @ new \<and> list_all2 (\<lambda>i t. True) js new"
    using run by (rule for_range_collect [rotated]) (use step in auto)
  then show ?thesis by (auto dest: list_all2_lengthD)
qed

lemma for_range_append:
  "for_range (xs @ ys) body s = bind_result (for_range xs body s) (for_range ys body)"
  by (induction xs arbitrary: s) (simp_all add: bind_result_def split: sum.splits)

lemma cycle_raises_loop:
  assumes "i < n" "cycle_raises body s0 i e"
  shows "for_range [0..<n] body s0 = Inl e"
proof -
  from assms(2) obtain s where pre: "for_range [0..<i] body s0 = Inr s" and b: "body i s = Inl e"
    by (auto simp: cycle_raises_def split: sum.splits)
  have "[0..<n] = [0..<i] @ i # [Suc i..<n]"
    using assms(1) by (metis less_imp_le_nat upt_add_eq_append upt_conv_Cons le0 le_add_diff_inverse add_0)
  then show ?thesis using pre b by (simp add: for_range_append)
qed

lemma list_all2_upt_nth:
  "list_all2 P [0..<n] ts \<longleftrightarrow> length ts = n \<and> (\<forall>i<n. P i (ts ! i))"
  by (auto simp: list_all2_conv_all_nth)

lemma replicate_hd: "xs = replicate n x \<Longrightarrow> replicate n (hd xs) = xs"
  by (cases n) simp_all

subsection \<open>Schema unification and concatenation\<close>

lemma merge_field_names:
  "merge_field f sch = Inr sch' \<Longrightarrow>
     map fst sch' = (if fst f \<in> fst ` set sch then map fst sch else map fst sch @ [fst f])"
proof (induction sch arbitrary: sch')
  case Nil
  then show ?case by auto
next
  case (Cons f' fs)
  show ?case
  proof (cases "fst f = fst f'")
    case True
    with Cons.prems show ?thesis by (auto split: if_splits)
  next
    case False
    with Cons.prems obtain fs' where m: "merge_field f fs = Inr fs'" and s: "sch' = f' # fs'"
      by (auto simp: bind_result_eq_Inr split: sum.splits)
    from Cons.IH [OF m] s False show ?thesis by auto
  qed
qed

lemma merge_field_distinct:
  assumes "merge_field f sch = Inr sch'" "distinct (map fst sch)"
  shows "distinct (map fst sch') \<and> fst ` set sch' = insert (fst f) (fst ` set sch)"
proof -
  have names: "map fst sch' = (if fst f \<in> fst ` set sch then map fst sch else map fst sch @ [fst f])"
    using assms(1) by (rule merge_field_names)
  have "set (map fst sch') = insert (fst f) (fst ` set sch)"
    unfolding names by auto
  moreover have "distinct (map fst sch')"
    unfolding names using assms(2) by auto
  ultimately show ?thesis by simp
qed

lemma merge_schema_distinct:
  "merge_schema acc s = Inr sch \<Longrightarrow> distinct (map fst acc) \<Longrightarrow>
     distinct (map fst sch) \<and> fst ` set sch = fst ` set acc \<union> fst ` set s"
proof (induction s arbitrary: acc)
  case Nil
  then show ?case by simp
next
  case (Cons f fs)
  from Cons.prems(1) obtain acc' where m: "merge_field f acc = Inr acc'"
    and r: "merge_schema acc' fs = Inr sch"
    by (auto split: sum.splits)
  from merge_field_distinct [OF m Cons.prems(2)]
  have d: "distinct (map fst acc')" and n: "fst ` set acc' = insert (fst f) (fst ` set acc)"
    by simp_all
  from Cons.IH [OF r d] n show ?case by auto
qed

lemma unify_rest_distinct:
  "unify_rest acc ss = Inr sch \<Longrightarrow> distinct (map fst acc) \<Longrightarrow>
     distinct (map fst sch) \<and>
     fst ` set sch = fst ` set acc \<union> (\<Union>s \<in> set ss. fst ` set s) \<and>
     (\<forall>s \<in> set ss. distinct (map fst s))"
proof (induction ss arbitrary: acc)
  case Nil
  then show ?case by simp
next
  case (Cons s ss)
  from Cons.prems(1) have ds: "distinct (map fst s)"
    by (auto split: if_splits)
  with Cons.prems(1) obtain acc' where m: "merge_schema acc s = Inr acc'"
    and r: "unify_rest acc' ss = Inr sch"
    by (auto split: sum.splits)
  from merge_schema_distinct [OF m Cons.prems(2)]
  have d: "distinct (map fst acc')" and n: "fst ` set acc' = fst ` set acc \<union> fst ` set s"
    by simp_all
  from Cons.IH [OF r d] n ds show ?case by auto
qed

lemma unify_schemas_distinct:
  assumes "unify_schemas ss = Inr sch"
  shows "distinct (map fst sch) \<and>
     fst ` set sch = (\<Union>s \<in> set ss. fst ` set s) \<and>
     (\<forall>s \<in> set ss. distinct (map fst s))"
proof (cases ss)
  case Nil
  with assms show ?thesis by simp
next
  case (Cons s rest)
  with assms have ds: "distinct (map fst s)" and r: "unify_rest s rest = Inr sch"
    by (auto split: if_splits)
  from unify_rest_distinct [OF r ds] ds Cons show ?thesis by auto
qed

lemma filter_fst_distinct:
  "distinct (map fst xs) \<Longrightarrow> (a, b) \<in> set xs \<Longrightarrow> filter (\<lambda>f. fst f = a) xs = [(a, b)]"
proof (induction xs)
  case Nil
  then show ?case by simp
next
  case (Cons x xs)
  show ?case
  proof (cases "x = (a, b)")
    case True
    with Cons.prems have "a \<notin> fst ` set xs" by auto
    then have "filter (\<lambda>f. fst f = a) xs = []" by (auto simp: filter_empty_conv)
    with True show ?thesis by simp
  next
    case False
    with Cons.prems have mem: "(a, b) \<in> set xs" by auto
    then have "a \<in> fst ` set xs" by force
    with Cons.prems have "fst x \<noteq> a" by auto
    with Cons.IH Cons.prems mem show ?thesis by simp
  qed
qed

lemma find_distinct:
  "distinct (map f xs) \<Longrightarrow> x \<in> set xs \<Longrightarrow> find (\<lambda>y. f y = f x) xs = Some x"
  by (induction xs) auto

lemma concat_tables_column:
  assumes cat: "concat_tables ts = Inr out"
    and t: "t \<in> set ts" and c: "c \<in> set (columns t)"
  shows "\<exists>ty. column_named out (col_name c) = Some (concat_column ts (col_name c, ty))"
proof -
  from cat obtain sch where u: "unify_schemas (map table_schema ts) = Inr sch"
    and out: "out = \<lparr> num_rows = sum_list (map num_rows ts), columns = map (concat_column ts) sch \<rparr>"
    by (auto simp: concat_tables_def split: sum.splits)
  from unify_schemas_distinct [OF u]
  have d: "distinct (map fst sch)"
    and n: "fst ` set sch = (\<Union>s \<in> set (map table_schema ts). fst ` set s)"
    by simp_all
  have "col_name c \<in> fst ` set (table_schema t)"
    using c by (force simp: table_schema_def)
  with t n have "col_name c \<in> fst ` set sch" by auto
  then obtain ty where mem: "(col_name c, ty) \<in> set sch" by auto
  have "filter (\<lambda>c'. col_name c' = col_name c) (map (concat_column ts) sch)
          = map (concat_column ts) (filter (\<lambda>f. fst f = col_name c) sch)"
    by (simp add: filter_map comp_def concat_column_def)
  also have "\<dots> = [concat_column ts (col_name c, ty)]"
    using filter_fst_distinct [OF d mem] by simp
  finally show ?thesis by (auto simp: column_named_def out)
qed

lemma concat_tables_num_rows:
  "concat_tables ts = Inr out \<Longrightarrow> num_rows out = sum_list (map num_rows ts)"
  by (auto simp: concat_tables_def split: sum.splits)

lemma concat_tables_distinct:
  assumes "concat_tables ts = Inr out" "t \<in> set ts"
  shows "distinct (map col_name (columns t))"
proof -
  from assms(1) obtain sch where u: "unify_schemas (map table_schema ts) = Inr sch"
    by (auto simp: concat_tables_def split: sum.splits)
  from unify_schemas_distinct [OF u] assms(2)
  have "distinct (map fst (table_schema t))" by auto
  then show ?thesis by (simp add: table_schema_def comp_def)
qed

subsection \<open>Generation cycles\<close>

lemma jes_only_cycle_step:
  assumes "jes_only_cycle cfg syst g base i (ts, p) = Inr (ts', p')"
  shows "\<exists>t. ts' = ts @ [t] \<and>
     (\<exists>jes shifted. sample_jes cfg g p = Inr (jes, p') \<and>
        syst base (Some (make_jes_object_shift jes)) None True = Inr shifted \<and>
        add_syst_columns shifted jes 0 0 (int i) = Inr t)"
  using assms unfolding jes_only_cycle_def
  by (auto simp: bind_result_eq_Inr)

lemma met_only_cycle_step:
  assumes "met_only_cycle cfg syst g base i (ts, p) = Inr (ts', p')"
  shows "\<exists>t. ts' = ts @ [t] \<and>
     (\<exists>px py shifted. sample_met cfg g p = Inr ((px, py), p') \<and>
        syst base None (Some [(''px'', px), (''py'', py)]) True = Inr shifted \<and>
        add_syst_columns shifted 0 px py (int i) = Inr t)"
  using assms unfolding met_only_cycle_def
  by (auto simp: bind_result_eq_Inr)

lemma jes_met_cycle_step:
  assumes "jes_met_cycle cfg syst g base i (ts, p) = Inr (ts', p')"
  shows "\<exists>t. ts' = ts @ [t] \<and>
     (\<exists>jes px py p1 shifted. sample_jes cfg g p = Inr (jes, p1) \<and>
        sample_met cfg g p1 = Inr ((px, py), p') \<and>
        syst base (Some (make_jes_object_shift jes)) (Some [(''px'', px), (''py'', py)]) True
          = Inr shifted \<and>
        add_syst_columns shifted jes px py (int i) = Inr t)"
  using assms unfolding jes_met_cycle_def
  by (auto simp: bind_result_eq_Inr)

lemma jes_only_cycle_length:
  "for_range js (jes_only_cycle cfg syst g base) (ts, p) = Inr (ts', p') \<Longrightarrow>
     length ts' = length ts + length js"
  by (rule for_range_length [rotated]) (auto dest: jes_only_cycle_step)

lemma met_only_cycle_length:
  "for_range js (met_only_cycle cfg syst g base) (ts, p) = Inr (ts', p') \<Longrightarrow>
     length ts' = length ts + length js"
  by (rule for_range_length [rotated]) (auto dest: met_only_cycle_step)

lemma jes_met_cycle_length:
  "for_range js (jes_met_cycle cfg syst g base) (ts, p) = Inr (ts', p') \<Longrightarrow>
     length ts' = length ts + length js"
  by (rule for_range_length [rotated]) (auto dest: jes_met_cycle_step)

lemma promoted_syst_columns:
  assumes a: "add_syst_columns shifted jes px py tag = Inr t"
    and d: "distinct (map col_name (columns t))"
  shows "num_rows t = num_rows shifted"
    and "promoted_values t ''syst_jes'' = replicate (num_rows shifted) (Float_val (to_float32 jes))"
    and "promoted_values t ''syst_met_px'' = replicate (num_rows shifted) (Float_val (to_float32 px))"
    and "promoted_values t ''syst_met_py'' = replicate (num_rows shifted) (Float_val (to_float32 py))"
    and "promoted_values t ''syst_tag'' = replicate (num_rows shifted) (Int_val tag)"
proof -
  let ?n = "num_rows shifted"
  from a have t: "t = shifted\<lparr>columns := columns shifted @
      syst_columns ?n (to_float32 jes) (to_float32 px) (to_float32 py) tag\<rparr>"
    by (simp add: add_syst_columns_eq split: if_splits)
  then show "num_rows t = ?n" by simp
  have mem: "c \<in> set (columns t)" if "c \<in> set (syst_columns ?n (to_float32 jes) (to_float32 px) (to_float32 py) tag)" for c
    using that t by simp
  have pv: "promoted_values t (col_name c) = col_values c"
    if "c \<in> set (syst_columns ?n (to_float32 jes) (to_float32 px) (to_float32 py) tag)" for c
    using find_distinct [OF d mem [OF that]] by (simp add: promoted_values_def)
  show "promoted_values t ''syst_jes'' = replicate ?n (Float_val (to_float32 jes))"
    using pv [of "\<lparr>col_name = ''syst_jes'', col_type = Float32,
        col_values = replicate ?n (Float_val (to_float32 jes))\<rparr>"] by (simp add: syst_columns_def)
  show "promoted_values t ''syst_met_px'' = replicate ?n (Float_val (to_float32 px))"
    using pv [of "\<lparr>col_name = ''syst_met_px'', col_type = Float32,
        col_values = replicate ?n (Float_val (to_float32 px))\<rparr>"] by (simp add: syst_columns_def)
  show "promoted_values t ''syst_met_py'' = replicate ?n (Float_val (to_float32 py))"
    using pv [of "\<lparr>col_name = ''syst_met_py'', col_type = Float32,
        col_values = replicate ?n (Float_val (to_float32 py))\<rparr>"] by (simp add: syst_columns_def)
  show "promoted_values t ''syst_tag'' = replicate ?n (Int_val tag)"
    using pv [of "\<lparr>col_name = ''syst_tag'', col_type = Int64,
        col_values = replicate ?n (Int_val tag)\<rparr>"] by (simp add: syst_columns_def)
qed

lemma syst_column_names:
  assumes "add_syst_columns shifted jes px py tag = Inr t"
    and "nm \<in> {''syst_jes'', ''syst_met_px'', ''syst_met_py'', ''syst_tag''}"
  shows "\<exists>c \<in> set (columns t). col_name c = nm"
proof -
  from assms(1)
  have t: "t = shifted\<lparr>columns := columns shifted @
      syst_columns (num_rows shifted) (to_float32 jes) (to_float32 px) (to_float32 py) tag\<rparr>"
    by (simp add: add_syst_columns_eq split: if_splits)
  from assms(2) show ?thesis
    unfolding t by (auto simp: syst_columns_def)
qed

lemma annotated_blocks:
  assumes ts: "list_all2 (\<lambda>i t. \<exists>shifted jes px py. num_rows shifted = n \<and>
                  add_syst_columns shifted jes px py (int i) = Inr t) [0..<N] ts"
    and cat: "concat_tables ts = Inr out"
  shows "num_rows out = N * n"
    and "nm \<in> {''syst_jes'', ''syst_met_px'', ''syst_met_py'', ''syst_tag''} \<Longrightarrow>
           \<exists>c v. column_named out nm = Some c \<and>
             col_values c = concat (map (\<lambda>k. replicate n (v k)) [0..<N])"
    and "\<exists>c. column_named out ''syst_tag'' = Some c \<and>
             col_values c = concat (map (\<lambda>k. replicate n (Int_val (int k))) [0..<N])"
proof -
  from ts have len: "length ts = N"
    and each: "\<And>i. i < N \<Longrightarrow> \<exists>shifted jes px py. num_rows shifted = n \<and>
                  add_syst_columns shifted jes px py (int i) = Inr (ts ! i)"
    by (simp_all add: list_all2_upt_nth)
  have dist: "distinct (map col_name (columns (ts ! i)))" if "i < N" for i
    using concat_tables_distinct [OF cat, of "ts ! i"] that len by simp
  have rows: "num_rows (ts ! i) = n" if "i < N" for i
    using each [OF that] promoted_syst_columns(1) [OF _ dist [OF that]] by auto
  have "map num_rows ts = replicate N n"
    using rows len by (intro nth_equalityI) simp_all
  then have "sum_list (map num_rows ts) = N * n"
    by (simp add: sum_list_replicate)
  then show "num_rows out = N * n"
    using concat_tables_num_rows [OF cat] by simp
  from cat have "ts \<noteq> []" by (auto simp: concat_tables_def)
  with len have pos: "0 < N" by auto
  have col: "\<exists>ty. column_named out nm = Some (concat_column ts (nm, ty))"
    if "nm \<in> {''syst_jes'', ''syst_met_px'', ''syst_met_py'', ''syst_tag''}" for nm
  proof -
    from each [OF pos] obtain shifted jes px py
      where "add_syst_columns shifted jes px py (int 0) = Inr (ts ! 0)" by auto
    from syst_column_names [OF this that]
    obtain c where c: "c \<in> set (columns (ts ! 0))" "col_name c = nm" by auto
    have "ts ! 0 \<in> set ts" using pos len by simp
    from concat_tables_column [OF cat this c(1)] c(2) show ?thesis by simp
  qed
  have vals: "col_values (concat_column ts (nm, ty)) =
      concat (map (\<lambda>k. promoted_values (ts ! k) nm) [0..<N])" for nm ty
  proof -
    have "map (\<lambda>t. promoted_values t nm) ts = map (\<lambda>k. promoted_values (ts ! k) nm) [0..<N]"
      using len by (intro nth_equalityI) simp_all
    then show ?thesis by (simp add: concat_column_def)
  qed
  have const: "\<exists>x. promoted_values (ts ! k) nm = replicate n x"
    if "k < N" "nm \<in> {''syst_jes'', ''syst_met_px'', ''syst_met_py'', ''syst_tag''}" for k nm
  proof -
    from each [OF that(1)] obtain shifted jes px py
      where n: "num_rows shifted = n"
        and a: "add_syst_columns shifted jes px py (int k) = Inr (ts ! k)" by auto
    from promoted_syst_columns(2-5) [OF a dist [OF that(1)]] n that(2)
    show ?thesis by auto
  qed
  have tag: "promoted_values (ts ! k) ''syst_tag'' = replicate n (Int_val (int k))"
    if "k < N" for k
  proof -
    from each [OF that] obtain shifted jes px py
      where n: "num_rows shifted = n"
        and a: "add_syst_columns shifted jes px py (int k) = Inr (ts ! k)" by auto
    from promoted_syst_columns(5) [OF a dist [OF that]] n show ?thesis by simp
  qed
  show "\<exists>c v. column_named out nm = Some c \<and>
             col_values c = concat (map (\<lambda>k. replicate n (v k)) [0..<N])"
    if nm: "nm \<in> {''syst_jes'', ''syst_met_px'', ''syst_met_py'', ''syst_tag''}"
  proof -
    from col [OF nm] obtain ty
      where c: "column_named out nm = Some (concat_column ts (nm, ty))" by auto
    let ?v = "\<lambda>k. hd (promoted_values (ts ! k) nm)"
    have "map (\<lambda>k. promoted_values (ts ! k) nm) [0..<N] = map (\<lambda>k. replicate n (?v k)) [0..<N]"
    proof (rule map_cong [OF refl])
      fix k assume "k \<in> set [0..<N]"
      then have "k < N" by simp
      from const [OF this nm] obtain x where "promoted_values (ts ! k) nm = replicate n x" ..
      from replicate_hd [OF this] show "promoted_values (ts ! k) nm = replicate n (?v k)"
        by simp
    qed
    with c vals [of nm ty] show ?thesis by auto
  qed
  show "\<exists>c. column_named out ''syst_tag'' = Some c \<and>
             col_values c = concat (map (\<lambda>k. replicate n (Int_val (int k))) [0..<N])"
  proof -
    from col [of "''syst_tag''"] obtain ty
      where c: "column_named out ''syst_tag'' = Some (concat_column ts (''syst_tag'', ty))"
      by auto
    have "map (\<lambda>k. promoted_values (ts ! k) ''syst_tag'') [0..<N]
            = map (\<lambda>k. replicate n (Int_val (int k))) [0..<N]"
      using tag by (intro map_cong [OF refl]) simp
    with c vals [of "''syst_tag''" ty] show ?thesis by auto
  qed
qed

lemma annotated_by_cycle:
  assumes rows: "\<forall>os ms t'. syst base os ms True = Inr t' \<longrightarrow> num_rows t' = num_rows base"
    and body: "body = jes_only_cycle cfg syst g base \<or> body = met_only_cycle cfg syst g base
                 \<or> body = jes_met_cycle cfg syst g base"
    and run: "body i (ts, p) = Inr (ts', p')"
  shows "\<exists>t. ts' = ts @ [t] \<and> (\<exists>shifted jes px py. num_rows shifted = num_rows base \<and>
           add_syst_columns shifted jes px py (int i) = Inr t)"
  using body
proof (elim disjE)
  assume "body = jes_only_cycle cfg syst g base"
  with run jes_only_cycle_step [of cfg syst g base i ts p ts' p'] rows
  show ?thesis by blast
next
  assume "body = met_only_cycle cfg syst g base"
  with run met_only_cycle_step [of cfg syst g base i ts p ts' p'] rows
  show ?thesis by blast
next
  assume "body = jes_met_cycle cfg syst g base"
  with run jes_met_cycle_step [of cfg syst g base i ts p ts' p'] rows
  show ?thesis by blast
qed

subsection \<open>Consumption of the random source\<close>

lemma sample_jes_cong: "g1 p = g2 p \<Longrightarrow> sample_jes cfg g1 p = sample_jes cfg g2 p"
  by (simp add: sample_jes_def np_random_normal_def)

lemma sample_jes_pos: "sample_jes cfg g p = Inr (v, p') \<Longrightarrow> p' = Suc p"
  by (auto simp: sample_jes_def np_random_normal_def split: if_splits)

lemma sample_met_cong:
  "g1 p = g2 p \<Longrightarrow> g1 (Suc p) = g2 (Suc p) \<Longrightarrow> sample_met cfg g1 p = sample_met cfg g2 p"
  by (simp add: sample_met_def np_random_lognormal_def)

lemma sample_met_pos: "sample_met cfg g p = Inr (v, p') \<Longrightarrow> p' = Suc (Suc p)"
  by (auto simp: sample_met_def np_random_lognormal_def split: if_splits)

lemma jes_only_cycle_cong:
  assumes "\<forall>q. p \<le> q \<and> q < p + 1 \<longrightarrow> g1 q = g2 q"
  shows "jes_only_cycle cfg syst g1 base i (ts, p) = jes_only_cycle cfg syst g2 base i (ts, p)"
proof -
  have "g1 p = g2 p" using assms by simp
  then have "sample_jes cfg g1 p = sample_jes cfg g2 p" by (rule sample_jes_cong)
  then show ?thesis by (simp add: jes_only_cycle_def)
qed

lemma jes_only_cycle_pos:
  "jes_only_cycle cfg syst g base i (ts, p) = Inr (ts', p') \<Longrightarrow> p' = p + 1"
  by (drule jes_only_cycle_step) (auto dest: sample_jes_pos)

lemma met_only_cycle_cong:
  assumes "\<forall>q. p \<le> q \<and> q < p + 2 \<longrightarrow> g1 q = g2 q"
  shows "met_only_cycle cfg syst g1 base i (ts, p) = met_only_cycle cfg syst g2 base i (ts, p)"
proof -
  have "g1 p = g2 p" "g1 (Suc p) = g2 (Suc p)" using assms by simp_all
  then have "sample_met cfg g1 p = sample_met cfg g2 p" by (rule sample_met_cong)
  then show ?thesis by (simp add: met_only_cycle_def)
qed

lemma met_only_cycle_pos:
  "met_only_cycle cfg syst g base i (ts, p) = Inr (ts', p') \<Longrightarrow> p' = p + 2"
  by (drule met_only_cycle_step) (auto dest: sample_met_pos)

lemma jes_met_cycle_cong:
  assumes "\<forall>q. p \<le> q \<and> q < p + 3 \<longrightarrow> g1 q = g2 q"
  shows "jes_met_cycle cfg syst g1 base i (ts, p) = jes_met_cycle cfg syst g2 base i (ts, p)"
proof -
  have eq: "g1 p = g2 p" "g1 (Suc p) = g2 (Suc p)" "g1 (Suc (Suc p)) = g2 (Suc (Suc p))"
    using assms by simp_all
  have j: "sample_jes cfg g1 p = sample_jes cfg g2 p"
    using eq(1) by (rule sample_jes_cong)
  show ?thesis
  proof (cases "sample_jes cfg g2 p")
    case (Inl e)
    with j show ?thesis by (simp add: jes_met_cycle_def)
  next
    case (Inr r)
    obtain jes p1 where r: "r = (jes, p1)" by (cases r)
    with Inr have "p1 = Suc p" by (auto dest: sample_jes_pos)
    with eq have "sample_met cfg g1 p1 = sample_met cfg g2 p1"
      by (intro sample_met_cong) simp_all
    with j Inr r show ?thesis by (simp add: jes_met_cycle_def)
  qed
qed

lemma jes_met_cycle_pos:
  "jes_met_cycle cfg syst g base i (ts, p) = Inr (ts', p') \<Longrightarrow> p' = p + 3"
proof -
  assume "jes_met_cycle cfg syst g base i (ts, p) = Inr (ts', p')"
  from jes_met_cycle_step [OF this] obtain jes px py p1
    where j: "sample_jes cfg g p = Inr (jes, p1)"
      and m: "sample_met cfg g p1 = Inr ((px, py), p')" by blast
  from sample_jes_pos [OF j] sample_met_pos [OF m] show ?thesis by simp
qed

lemma for_range_pos:
  assumes pos: "\<And>i ts p ts' p'. body i (ts, p) = Inr (ts', p') \<Longrightarrow> p' = p + c"
  shows "for_range js body (ts, p) = Inr (ts', p') \<Longrightarrow> p' = p + c * length js"
proof (induction js arbitrary: ts p)
  case Nil
  then show ?case by simp
next
  case (Cons j js)
  from Cons.prems obtain ts1 p1 where b: "body j (ts, p) = Inr (ts1, p1)"
    and r: "for_range js body (ts1, p1) = Inr (ts', p')"
    by (auto simp: bind_result_eq_Inr)
  from pos [OF b] Cons.IH [OF r] show ?case by simp
qed

lemma for_range_cong:
  assumes cong: "\<And>i ts p. (\<forall>q. p \<le> q \<and> q < p + c \<longrightarrow> g1 q = g2 q) \<Longrightarrow>
                    body1 i (ts, p) = body2 i (ts, p)"
    and pos: "\<And>i ts p ts' p'. body2 i (ts, p) = Inr (ts', p') \<Longrightarrow> p' = p + c"
  shows "(\<forall>q. p \<le> q \<and> q < p + c * length js \<longrightarrow> g1 q = g2 q) \<Longrightarrow>
           for_range js body1 (ts, p) = for_range js body2 (ts, p)"
proof (induction js arbitrary: ts p)
  case Nil
  then show ?case by simp
next
  case (Cons j js)
  have b: "body1 j (ts, p) = body2 j (ts, p)"
    using Cons.prems by (intro cong) simp
  show ?case
  proof (cases "body2 j (ts, p)")
    case (Inl e)
    with b show ?thesis by simp
  next
    case (Inr s)
    obtain ts1 p1 where s: "s = (ts1, p1)" by (cases s)
    from pos [OF Inr [unfolded s]] have p1: "p1 = p + c" .
    have "for_range js body1 (ts1, p1) = for_range js body2 (ts1, p1)"
      using Cons.prems unfolding p1 by (intro Cons.IH) (simp add: add.assoc)
    with b Inr s show ?thesis by simp
  qed
qed

lemma output_names_distinct:
  "OUTPUT_JES_ONLY \<noteq> OUTPUT_MET_ONLY" "OUTPUT_JES_ONLY \<noteq> OUTPUT_JES_MET"
  "OUTPUT_MET_ONLY \<noteq> OUTPUT_JES_MET"
  by (simp_all add: OUTPUT_JES_ONLY_def OUTPUT_MET_ONLY_def OUTPUT_JES_MET_def)

subsection \<open>The sample inputs evaluated\<close>

lemma upt_2: "[0..<2] = [0, Suc 0]"
  by (simp add: upt_rec)

lemma to_float32_0: "to_float32 0 = F32 0"
  by (simp add: to_float32_def)

lemma to_float32_1: "to_float32 1 = F32 1"
  by code_simp

lemma to_float32_half: "to_float32 (1 / 2) = F32 (1 / 2)"
  by code_simp

lemma to_float32_20th: "to_float32 (5 / 100) = F32 (13421773 / 268435456)"
  by code_simp

lemma to_float32_neg_10th: "to_float32 (- (1 / 10)) = F32 (- (13421773 / 134217728))"
  by code_simp

lemma demo_annotate:
  "fits_int64 tag \<Longrightarrow>
     add_syst_columns demo_base jes px py tag
       = Inr (demo_annotated (to_float32 jes) (to_float32 px) (to_float32 py) tag)"
  by (simp add: add_syst_columns_eq demo_base_def demo_annotated_def syst_columns_def
        numeral_2_eq_2)

lemma jes_loop_demo:
  "for_range [0..<2] (jes_only_cycle demo_config identity_applier zero_draws demo_base) ([], 0)
     = Inr ([demo_annotated (F32 0) (F32 0) (F32 0) 0, demo_annotated (F32 0) (F32 0) (F32 0) 1], 1 + 1)"
  by (simp add: upt_2 jes_only_cycle_def sample_jes_def np_random_normal_def np_clip_def
        demo_config_def module_config_def identity_applier_def zero_draws_def demo_annotate
        fits_int64_def to_float32_0 to_float32_1 to_float32_neg_10th)

lemma concat_demo:
  "concat_tables [demo_annotated jes px py 0, demo_annotated jes px py 1]
     = Inr (demo_family jes px py)"
  by (simp add: concat_tables_def table_schema_def demo_annotated_def demo_family_def
        concat_column_def promoted_values_def numeral_eq_Suc)

lemma read_demo: "read_table demo_disk INPUT_PARQUET = Inr demo_base"
  by (simp add: read_table_def demo_disk_def)

lemma slice_demo: "table_slice demo_base 0 (BASE_SLICE demo_config) = demo_base"
  by (simp add: table_slice_def demo_base_def demo_config_def module_config_def)

lemma jes_loop_met_failing:
  "for_range [0..<2] (jes_only_cycle demo_config met_failing_applier zero_draws demo_base) ([], 0)
     = Inr ([demo_annotated (F32 0) (F32 0) (F32 0) 0, demo_annotated (F32 0) (F32 0) (F32 0) 1], 1 + 1)"
  by (simp add: upt_2 jes_only_cycle_def sample_jes_def np_random_normal_def np_clip_def
        demo_config_def module_config_def met_failing_applier_def zero_draws_def demo_annotate
        fits_int64_def to_float32_0 to_float32_1 to_float32_neg_10th)

lemma met_cycle_met_failing:
  "cycle_raises (met_only_cycle demo_config met_failing_applier zero_draws demo_base)
     ([], 1 + 1) 0 (Raised ''met'')"
  by (simp add: cycle_raises_def met_only_cycle_def sample_met_def np_random_lognormal_def
        demo_config_def module_config_def met_failing_applier_def)

lemma slice_demo_inverted:
  "table_slice demo_base 0 (BASE_SLICE inverted_config) = demo_base"
  by (simp add: table_slice_def demo_base_def inverted_config_def demo_config_def
        module_config_def)

lemma jes_loop_inverted:
  "for_range [0..<2] (jes_only_cycle inverted_config identity_applier zero_draws demo_base) ([], 0)
     = Inr ([demo_annotated (F32 (- (13421773 / 134217728))) (F32 0) (F32 0) 0, demo_annotated (F32 (- (13421773 / 134217728))) (F32 0) (F32 0) 1], 2)"
  by (simp add: upt_2 jes_only_cycle_def sample_jes_def np_random_normal_def np_clip_def
        inverted_config_def demo_config_def module_config_def identity_applier_def
        zero_draws_def demo_annotate fits_int64_def to_float32_0 to_float32_1
        to_float32_neg_10th)

lemma met_loop_inverted:
  "for_range [0..<2] (met_only_cycle inverted_config identity_applier zero_draws demo_base) ([], 2)
     = Inr ([demo_annotated (F32 0) (F32 1) (F32 1) 0, demo_annotated (F32 0) (F32 1) (F32 1) 1], 6)"
  by (simp add: upt_2 met_only_cycle_def sample_met_def np_random_lognormal_def np_clip_def
        inverted_config_def demo_config_def module_config_def identity_applier_def
        zero_draws_def demo_annotate fits_int64_def to_float32_0 to_float32_1
        to_float32_neg_10th)

lemma jes_met_loop_inverted:
  "for_range [0..<2] (jes_met_cycle inverted_config identity_applier zero_draws demo_base) ([], 6)
     = Inr ([demo_annotated (F32 (- (13421773 / 134217728))) (F32 1) (F32 1) 0, demo_annotated (F32 (- (13421773 / 134217728))) (F32 1) (F32 1) 1], 12)"
  by (simp add: upt_2 jes_met_cycle_def sample_jes_def sample_met_def np_random_normal_def
        np_random_lognormal_def np_clip_def
        inverted_config_def demo_config_def module_config_def identity_applier_def
        zero_draws_def demo_annotate fits_int64_def to_float32_0 to_float32_1
        to_float32_neg_10th)

section \<open>The claims\<close>

text \<open>
  Claim C1. For every \<open>jes\<close>, the dictionary built by \<open>make_jes_object_shift\<close> has the
  single entry \<open>jet_pt\<close>. Its feature list is \<open>pt\<close>, its scale is \<open>jes\<close>, and its
  transformation applied to a value \<open>v\<close> and the scale returns \<open>v * (1 + jes)\<close>. Its
  selection, applied to an array whose last axis has more than five elements,
  returns one boolean per row, true exactly for the rows whose element at index 5
  equals 0.
\<close>

theorem make_jes_object_shift_spec:
  "\<exists>e. make_jes_object_shift jes = [(''jet_pt'', e)] \<and>
       shift_features e = [''pt''] \<and>
       shift_scale e = jes \<and>
       (\<forall>v. shift_apply e v (shift_scale e) = v * (1 + jes)) \<and>
       (\<forall>x ds d. wf_ndarray x \<and> shape x = ds @ [d] \<and> 5 < d \<longrightarrow>
          (\<exists>m. shift_select e x = Inr m \<and> shape m = ds \<and>
               length (data m) = prod_list ds \<and>
               (\<forall>i < prod_list ds. data m ! i = (row_of x i ! 5 = 0))))"
proof -
  let ?e = "snd (hd (make_jes_object_shift jes))"
  have sel: "\<exists>m. shift_select ?e x = Inr m \<and> shape m = ds \<and>
               length (data m) = prod_list ds \<and>
               (\<forall>i < prod_list ds. data m ! i = (row_of x i ! 5 = 0))"
    if "wf_ndarray x" "shape x = ds @ [d]" "5 < d" for x ds d
    using that
    by (simp add: make_jes_object_shift_def index_last_ok eq_scalar_def row_of_nth)
  show ?thesis
    apply (rule exI [of _ ?e])
    using sel by (simp add: make_jes_object_shift_def)
qed

theorem make_jes_object_shift_spec_witness:
  "\<exists>e m. make_jes_object_shift (5 / 100) = [(''jet_pt'', e)] \<and>
       shift_features e = [''pt''] \<and>
       shift_apply e 10 (shift_scale e) = 105 / 10 \<and>
       shift_select e demo_objects = Inr m \<and> shape m = [2] \<and>
       data m ! 0 = True \<and> data m ! 1 = False"
proof -
  from make_jes_object_shift_spec [of "5 / 100"] obtain e
    where e: "make_jes_object_shift (5 / 100) = [(''jet_pt'', e)]"
      "shift_features e = [''pt'']"
      "\<forall>v. shift_apply e v (shift_scale e) = v * (1 + 5 / 100)"
    and sel: "\<forall>x ds d. wf_ndarray x \<and> shape x = ds @ [d] \<and> 5 < d \<longrightarrow>
          (\<exists>m. shift_select e x = Inr m \<and> shape m = ds \<and>
               length (data m) = prod_list ds \<and>
               (\<forall>i < prod_list ds. data m ! i = (row_of x i ! 5 = 0)))"
    by blast
  have "wf_ndarray demo_objects \<and> shape demo_objects = [2] @ [6] \<and> (5::nat) < 6"
    by (simp add: wf_ndarray_def demo_objects_def)
  with sel obtain m where m: "shift_select e demo_objects = Inr m" "shape m = [2]"
    "\<forall>i < prod_list [2]. data m ! i = (row_of demo_objects i ! 5 = 0)"
    by blast
  have d: "data m ! 0 = True" "data m ! 1 = False"
    using m(3) by (simp_all add: row_of_def demo_objects_def)
  from e(3) have "shift_apply e 10 (shift_scale e) = 10 * (1 + 5 / 100)" by (rule spec)
  then have "shift_apply e 10 (shift_scale e) = 105 / 10" by simp
  with e(1,2) m(1,2) d show ?thesis by blast
qed

text \<open>
  Claim C2. Let the variant applier return, for the base table, only tables with
  as many rows as the base table. If the loop of a family (JES only, MET only or
  JES and MET) completes its \<open>N\<close> cycles and the collected tables concatenate to
  the family output table, then that table has \<open>N\<close> times the base row count rows;
  each of the four bookkeeping columns is present exactly once and consists of
  \<open>N\<close> consecutive blocks of base-row-count equal cells; and block \<open>k\<close> of the
  column \<open>syst_tag\<close> holds the tag \<open>k\<close>, for \<open>k = 0, \<dots>, N - 1\<close> in this order.
\<close>

theorem family_output_blocks:
  assumes rows: "\<forall>os ms t'. syst base os ms True = Inr t' \<longrightarrow> num_rows t' = num_rows base"
    and body: "body = jes_only_cycle cfg syst g base \<or> body = met_only_cycle cfg syst g base
                 \<or> body = jes_met_cycle cfg syst g base"
    and loop: "for_range [0..<N_DATASETS_PER_TYPE cfg] body ([], p) = Inr (tables, p')"
    and cat: "concat_tables tables = Inr out"
  shows "num_rows out = N_DATASETS_PER_TYPE cfg * num_rows base \<and>
     (\<forall>nm \<in> {''syst_jes'', ''syst_met_px'', ''syst_met_py'', ''syst_tag''}.
        \<exists>c v. column_named out nm = Some c \<and>
          col_values c = concat (map (\<lambda>k. replicate (num_rows base) (v k))
                                     [0..<N_DATASETS_PER_TYPE cfg])) \<and>
     (\<exists>c. column_named out ''syst_tag'' = Some c \<and>
          col_values c = concat (map (\<lambda>k. replicate (num_rows base) (Int_val (int k)))
                                     [0..<N_DATASETS_PER_TYPE cfg]))"
proof -
  let ?P = "\<lambda>i t. \<exists>shifted jes px py. num_rows shifted = num_rows base \<and>
              add_syst_columns shifted jes px py (int i) = Inr t"
  have "\<exists>new. tables = [] @ new \<and> list_all2 ?P [0..<N_DATASETS_PER_TYPE cfg] new"
    using loop
  proof (rule for_range_collect [rotated])
    fix i ts q ts' q'
    assume "body i (ts, q) = Inr (ts', q')"
    from annotated_by_cycle [OF rows body this]
    show "\<exists>t. ts' = ts @ [t] \<and> ?P i t" .
  qed
  then have all: "list_all2 ?P [0..<N_DATASETS_PER_TYPE cfg] tables" by simp
  from annotated_blocks(1) [OF all cat] annotated_blocks(3) [OF all cat]
    annotated_blocks(2) [OF all cat]
  show ?thesis by blast
qed

theorem family_output_blocks_witness:
  "num_rows (demo_family (F32 0) (F32 0) (F32 0)) = N_DATASETS_PER_TYPE demo_config * num_rows demo_base \<and>
   (\<exists>c. column_named (demo_family (F32 0) (F32 0) (F32 0)) ''syst_tag'' = Some c \<and>
        col_values c = [Int_val 0, Int_val 0, Int_val 1, Int_val 1])"
proof -
  have n: "N_DATASETS_PER_TYPE demo_config = 2"
    by (simp add: demo_config_def)
  have rows: "\<forall>os ms t'. identity_applier demo_base os ms True = Inr t' \<longrightarrow>
                num_rows t' = num_rows demo_base"
    by (simp add: identity_applier_def)
  have loop: "for_range [0..<N_DATASETS_PER_TYPE demo_config]
                (jes_only_cycle demo_config identity_applier zero_draws demo_base) ([], 0)
              = Inr ([demo_annotated (F32 0) (F32 0) (F32 0) 0, demo_annotated (F32 0) (F32 0) (F32 0) 1], 1 + 1)"
    unfolding n by (rule jes_loop_demo)
  have body: "jes_only_cycle demo_config identity_applier zero_draws demo_base
                = jes_only_cycle demo_config identity_applier zero_draws demo_base
              \<or> jes_only_cycle demo_config identity_applier zero_draws demo_base
                = met_only_cycle demo_config identity_applier zero_draws demo_base
              \<or> jes_only_cycle demo_config identity_applier zero_draws demo_base
                = jes_met_cycle demo_config identity_applier zero_draws demo_base"
    by simp
  have cat: "concat_tables [demo_annotated (F32 0) (F32 0) (F32 0) 0, demo_annotated (F32 0) (F32 0) (F32 0) 1]
               = Inr (demo_family (F32 0) (F32 0) (F32 0))"
    by (rule concat_demo)
  from family_output_blocks [OF rows body loop cat]
  show ?thesis
    by (simp add: n upt_2 demo_base_def numeral_2_eq_2)
qed

text \<open>
  Claim C3. With the constants of the script, for every state of the random
  source, \<open>sample_jes\<close> returns a value between \<open>JES_MIN\<close> and \<open>JES_MAX\<close>, and
  \<open>sample_met\<close> returns two values, each between \<open>MET_MIN\<close> and \<open>MET_MAX\<close> and
  not negative.
\<close>

theorem sample_in_bounds:
  "(\<exists>v p'. sample_jes module_config g p = Inr (v, p') \<and>
       JES_MIN module_config \<le> v \<and> v \<le> JES_MAX module_config) \<and>
   (\<exists>px py p'. sample_met module_config g p = Inr ((px, py), p') \<and>
       MET_MIN module_config \<le> px \<and> px \<le> MET_MAX module_config \<and> 0 \<le> px \<and>
       MET_MIN module_config \<le> py \<and> py \<le> MET_MAX module_config \<and> 0 \<le> py)"
  by (simp add: sample_jes_def sample_met_def np_random_normal_def np_random_lognormal_def
        np_clip_def module_config_def)

theorem sample_in_bounds_witness:
  "(\<exists>v p'. sample_jes module_config zero_draws 0 = Inr (v, p') \<and> - (1 / 10) \<le> v \<and> v \<le> 1 / 10) \<and>
   (\<exists>px py p'. sample_met module_config zero_draws 0 = Inr ((px, py), p') \<and>
       0 \<le> px \<and> px \<le> 5 \<and> 0 \<le> py \<and> py \<le> 5)"
  using sample_in_bounds [of zero_draws 0] by (auto simp: module_config_def)

text \<open>
  Claim C4, as stated, fails. The three float columns are single precision, so a
  parameter that is not a single-precision value is not what the column holds:
  for \<open>jes = 0.05\<close> every row of \<open>syst_jes\<close> holds \<open>13421773 / 2 ^ 28\<close>, the
  nearest single-precision value, which differs from \<open>0.05\<close>. And a tag that does
  not fit in 64 signed bits makes the construction of the \<open>syst_tag\<close> column
  raise on a table that has a row.
\<close>

theorem add_syst_columns_narrows_float:
  "add_syst_columns demo_base (5 / 100) 0 0 0
     = Inr (demo_annotated (F32 (13421773 / 268435456)) (F32 0) (F32 0) 0) \<and>
   F32 (13421773 / 268435456) \<noteq> F32 (5 / 100) \<and>
   add_syst_columns demo_base (5 / 100) 0 0 (- (2 ^ 63) - 1) = Inl OverflowError"
proof -
  have "fits_int64 0" by (simp add: fits_int64_def)
  then have "add_syst_columns demo_base (5 / 100) 0 0 0
     = Inr (demo_annotated (to_float32 (5 / 100)) (to_float32 0) (to_float32 0) 0)"
    by (rule demo_annotate)
  then have stored: "add_syst_columns demo_base (5 / 100) 0 0 0
     = Inr (demo_annotated (F32 (13421773 / 268435456)) (F32 0) (F32 0) 0)"
    unfolding to_float32_20th to_float32_0 .
  have differs: "F32 (13421773 / 268435456) \<noteq> F32 (5 / 100)" by simp
  have raises: "add_syst_columns demo_base (5 / 100) 0 0 (- (2 ^ 63) - 1) = Inl OverflowError"
    by (simp add: add_syst_columns_eq fits_int64_def demo_base_def)
  from stored differs raises show ?thesis by blast
qed

text \<open>
  Claim C4, amended. For every table, every \<open>jes\<close>, \<open>met_px\<close>, \<open>met_py\<close>, and every
  tag that fits in 64 signed bits (or any tag when the table has no rows),
  \<open>add_syst_columns\<close> returns a table with the row count of its input whose
  columns are the columns of the input, unchanged and in the same order, followed
  by exactly four columns: \<open>syst_jes\<close>, \<open>syst_met_px\<close>, \<open>syst_met_py\<close> of type
  float32, each holding in every row its parameter converted to single precision,
  and \<open>syst_tag\<close> of type int64, holding the tag in every row.
\<close>

theorem add_syst_columns_appends:
  assumes "fits_int64 tag \<or> num_rows t = 0"
  shows "\<exists>t'. add_syst_columns t jes met_px met_py tag = Inr t' \<and>
     num_rows t' = num_rows t \<and>
     columns t' = columns t @
       [\<lparr>col_name = ''syst_jes'', col_type = Float32,
         col_values = replicate (num_rows t) (Float_val (to_float32 jes))\<rparr>,
        \<lparr>col_name = ''syst_met_px'', col_type = Float32,
         col_values = replicate (num_rows t) (Float_val (to_float32 met_px))\<rparr>,
        \<lparr>col_name = ''syst_met_py'', col_type = Float32,
         col_values = replicate (num_rows t) (Float_val (to_float32 met_py))\<rparr>,
        \<lparr>col_name = ''syst_tag'', col_type = Int64,
         col_values = replicate (num_rows t) (Int_val tag)\<rparr>]"
  using assms by (auto simp: add_syst_columns_eq syst_columns_def)

theorem add_syst_columns_appends_witness:
  "fits_int64 7 \<and>
   (\<exists>t'. add_syst_columns demo_base (5 / 100) 1 (1 / 2) 7 = Inr t' \<and> num_rows t' = 2 \<and>
      columns t' = columns demo_base @
       [\<lparr>col_name = ''syst_jes'', col_type = Float32,
         col_values = [Float_val (F32 (13421773 / 268435456)),
                       Float_val (F32 (13421773 / 268435456))]\<rparr>,
        \<lparr>col_name = ''syst_met_px'', col_type = Float32,
         col_values = [Float_val (F32 1), Float_val (F32 1)]\<rparr>,
        \<lparr>col_name = ''syst_met_py'', col_type = Float32,
         col_values = [Float_val (F32 (1 / 2)), Float_val (F32 (1 / 2))]\<rparr>,
        \<lparr>col_name = ''syst_tag'', col_type = Int64,
         col_values = [Int_val 7, Int_val 7]\<rparr>])"
proof -
  have f: "fits_int64 7" by (simp add: fits_int64_def)
  have n: "num_rows demo_base = 2" by (simp add: demo_base_def)
  from f have "fits_int64 7 \<or> num_rows demo_base = 0" ..
  from add_syst_columns_appends [OF this, of "5 / 100" 1 "1 / 2"] f
  show ?thesis
    unfolding n to_float32_20th to_float32_1 to_float32_half
    by (simp add: numeral_2_eq_2)
qed

text \<open>
  Claim C5. When the loop of a family completes, it has collected one table per
  cycle, and the table of cycle \<open>i\<close> is the table the variant applier returned in
  that cycle followed by the four bookkeeping columns, with tag \<open>i\<close> and with the
  sampled parameters converted to single precision. In the JES-only family the
  columns \<open>syst_met_px\<close> and \<open>syst_met_py\<close> hold 0 in every row, in the MET-only
  family the column \<open>syst_jes\<close> holds 0 in every row.
\<close>

theorem cycle_annotation:
  "(for_range [0..<N_DATASETS_PER_TYPE cfg] (jes_only_cycle cfg syst g base) ([], p)
      = Inr (ts, p') \<longrightarrow>
    length ts = N_DATASETS_PER_TYPE cfg \<and>
    (\<forall>i < N_DATASETS_PER_TYPE cfg. \<exists>jes shifted.
       syst base (Some (make_jes_object_shift jes)) None True = Inr shifted \<and>
       num_rows (ts ! i) = num_rows shifted \<and>
       columns (ts ! i) =
         columns shifted @ syst_columns (num_rows shifted) (to_float32 jes) (F32 0) (F32 0) (int i))) \<and>
   (for_range [0..<N_DATASETS_PER_TYPE cfg] (met_only_cycle cfg syst g base) ([], p)
      = Inr (ts, p') \<longrightarrow>
    length ts = N_DATASETS_PER_TYPE cfg \<and>
    (\<forall>i < N_DATASETS_PER_TYPE cfg. \<exists>px py shifted.
       syst base None (Some [(''px'', px), (''py'', py)]) True = Inr shifted \<and>
       num_rows (ts ! i) = num_rows shifted \<and>
       columns (ts ! i) =
         columns shifted @ syst_columns (num_rows shifted) (F32 0) (to_float32 px) (to_float32 py) (int i))) \<and>
   (for_range [0..<N_DATASETS_PER_TYPE cfg] (jes_met_cycle cfg syst g base) ([], p)
      = Inr (ts, p') \<longrightarrow>
    length ts = N_DATASETS_PER_TYPE cfg \<and>
    (\<forall>i < N_DATASETS_PER_TYPE cfg. \<exists>jes px py shifted.
       syst base (Some (make_jes_object_shift jes)) (Some [(''px'', px), (''py'', py)]) True
         = Inr shifted \<and>
       num_rows (ts ! i) = num_rows shifted \<and>
       columns (ts ! i) =
         columns shifted @ syst_columns (num_rows shifted) (to_float32 jes) (to_float32 px)
           (to_float32 py) (int i)))"
proof -
  let ?N = "N_DATASETS_PER_TYPE cfg"
  have ann: "num_rows t = num_rows shifted \<and>
      columns t = columns shifted @
        syst_columns (num_rows shifted) (to_float32 jes) (to_float32 px) (to_float32 py) tag"
    if "add_syst_columns shifted jes px py tag = Inr t" for shifted jes px py tag t
    using that by (auto simp: add_syst_columns_eq split: if_splits)
  let ?PJ = "\<lambda>i t. \<exists>jes shifted.
       syst base (Some (make_jes_object_shift jes)) None True = Inr shifted \<and>
       num_rows t = num_rows shifted \<and>
       columns t = columns shifted @ syst_columns (num_rows shifted) (to_float32 jes) (F32 0) (F32 0) (int i)"
  let ?PM = "\<lambda>i t. \<exists>px py shifted.
       syst base None (Some [(''px'', px), (''py'', py)]) True = Inr shifted \<and>
       num_rows t = num_rows shifted \<and>
       columns t = columns shifted @ syst_columns (num_rows shifted) (F32 0) (to_float32 px) (to_float32 py) (int i)"
  let ?PK = "\<lambda>i t. \<exists>jes px py shifted.
       syst base (Some (make_jes_object_shift jes)) (Some [(''px'', px), (''py'', py)]) True
         = Inr shifted \<and>
       num_rows t = num_rows shifted \<and>
       columns t = columns shifted @ syst_columns (num_rows shifted) (to_float32 jes) (to_float32 px)
           (to_float32 py) (int i)"
  have J: "list_all2 ?PJ [0..<?N] ts"
    if run: "for_range [0..<?N] (jes_only_cycle cfg syst g base) ([], p) = Inr (ts, p')"
  proof -
    have "\<exists>new. ts = [] @ new \<and> list_all2 ?PJ [0..<?N] new"
      using run
    proof (rule for_range_collect [rotated])
      fix i us q us' q'
      assume "jes_only_cycle cfg syst g base i (us, q) = Inr (us', q')"
      from jes_only_cycle_step [OF this] show "\<exists>t. us' = us @ [t] \<and> ?PJ i t"
        by (fastforce dest: ann simp: to_float32_0)
    qed
    then show ?thesis by simp
  qed
  have M: "list_all2 ?PM [0..<?N] ts"
    if run: "for_range [0..<?N] (met_only_cycle cfg syst g base) ([], p) = Inr (ts, p')"
  proof -
    have "\<exists>new. ts = [] @ new \<and> list_all2 ?PM [0..<?N] new"
      using run
    proof (rule for_range_collect [rotated])
      fix i us q us' q'
      assume "met_only_cycle cfg syst g base i (us, q) = Inr (us', q')"
      from met_only_cycle_step [OF this] show "\<exists>t. us' = us @ [t] \<and> ?PM i t"
        by (fastforce dest: ann simp: to_float32_0)
    qed
    then show ?thesis by simp
  qed
  have K: "list_all2 ?PK [0..<?N] ts"
    if run: "for_range [0..<?N] (jes_met_cycle cfg syst g base) ([], p) = Inr (ts, p')"
  proof -
    have "\<exists>new. ts = [] @ new \<and> list_all2 ?PK [0..<?N] new"
      using run
    proof (rule for_range_collect [rotated])
      fix i us q us' q'
      assume "jes_met_cycle cfg syst g base i (us, q) = Inr (us', q')"
      from jes_met_cycle_step [OF this] show "\<exists>t. us' = us @ [t] \<and> ?PK i t"
        by (fastforce dest: ann simp: to_float32_0)
    qed
    then show ?thesis by simp
  qed
  show ?thesis
    using J M K unfolding list_all2_upt_nth by blast
qed

theorem cycle_annotation_witness:
  "\<exists>jes shifted.
      identity_applier demo_base (Some (make_jes_object_shift jes)) None True = Inr shifted \<and>
      num_rows (demo_annotated (F32 0) (F32 0) (F32 0) 1) = num_rows shifted \<and>
      columns (demo_annotated (F32 0) (F32 0) (F32 0) 1) =
        columns shifted @ syst_columns (num_rows shifted) (to_float32 jes) (F32 0) (F32 0) 1"
proof -
  have n: "N_DATASETS_PER_TYPE demo_config = 2"
    by (simp add: demo_config_def)
  have loop: "for_range [0..<N_DATASETS_PER_TYPE demo_config]
                (jes_only_cycle demo_config identity_applier zero_draws demo_base) ([], 0)
              = Inr ([demo_annotated (F32 0) (F32 0) (F32 0) 0, demo_annotated (F32 0) (F32 0) (F32 0) 1], 1 + 1)"
    unfolding n by (rule jes_loop_demo)
  from cycle_annotation [of demo_config identity_applier zero_draws demo_base 0
      "[demo_annotated (F32 0) (F32 0) (F32 0) 0, demo_annotated (F32 0) (F32 0) (F32 0) 1]" "1 + 1"] loop
  have "\<forall>i < N_DATASETS_PER_TYPE demo_config. \<exists>jes shifted.
       identity_applier demo_base (Some (make_jes_object_shift jes)) None True = Inr shifted \<and>
       num_rows ([demo_annotated (F32 0) (F32 0) (F32 0) 0, demo_annotated (F32 0) (F32 0) (F32 0) 1] ! i) = num_rows shifted \<and>
       columns ([demo_annotated (F32 0) (F32 0) (F32 0) 0, demo_annotated (F32 0) (F32 0) (F32 0) 1] ! i) =
         columns shifted @ syst_columns (num_rows shifted) (to_float32 jes) (F32 0) (F32 0) (int i)"
    by blast
  then have "\<exists>jes shifted.
       identity_applier demo_base (Some (make_jes_object_shift jes)) None True = Inr shifted \<and>
       num_rows ([demo_annotated (F32 0) (F32 0) (F32 0) 0, demo_annotated (F32 0) (F32 0) (F32 0) 1] ! 1) = num_rows shifted \<and>
       columns ([demo_annotated (F32 0) (F32 0) (F32 0) 0, demo_annotated (F32 0) (F32 0) (F32 0) 1] ! 1) =
         columns shifted @ syst_columns (num_rows shifted) (to_float32 jes) (F32 0) (F32 0) (int 1)"
    unfolding n by (rule allE [where x = 1]) simp
  then show ?thesis by simp
qed

text \<open>
  Claim C6, as stated, fails: a configuration whose JES clipping interval has its
  lower end above its upper end is not rejected; the run completes and writes the
  three files.
\<close>

theorem invalid_config_not_rejected:
  "config_invalid inverted_config \<and>
   main inverted_config identity_applier zero_draws demo_disk
     = (None, demo_disk(OUTPUT_JES_ONLY \<mapsto> demo_family (F32 (- (13421773 / 134217728))) (F32 0) (F32 0),
                        OUTPUT_MET_ONLY \<mapsto> demo_family (F32 0) (F32 1) (F32 1),
                        OUTPUT_JES_MET \<mapsto> demo_family (F32 (- (13421773 / 134217728))) (F32 1) (F32 1)))"
proof -
  have n: "N_DATASETS_PER_TYPE inverted_config = 2"
    by (simp add: inverted_config_def demo_config_def)
  have inv: "config_invalid inverted_config"
    by (simp add: config_invalid_def inverted_config_def)
  have "main inverted_config identity_applier zero_draws demo_disk
     = (None, demo_disk(OUTPUT_JES_ONLY \<mapsto> demo_family (F32 (- (13421773 / 134217728))) (F32 0) (F32 0),
                        OUTPUT_MET_ONLY \<mapsto> demo_family (F32 0) (F32 1) (F32 1),
                        OUTPUT_JES_MET \<mapsto> demo_family (F32 (- (13421773 / 134217728))) (F32 1) (F32 1)))"
    by (simp only: main_def read_demo or_abort_Inr Let_def slice_demo_inverted n
          jes_loop_inverted met_loop_inverted jes_met_loop_inverted prod.case
          concat_demo write_table_def)
  with inv show ?thesis ..
qed

text \<open>
  Claim C6, amended. The constants of the script are a valid configuration. The
  program does not check the distribution parameters itself. A negative JES sigma
  makes the first sampling call of the first cycle raise ValueError, whatever the
  variant applier does, so that with at least one cycle and a readable base table
  the run ends with ValueError and the file system unchanged. A sigma that
  is zero, and clipping bounds in any order, are accepted by the sampler.
\<close>

theorem negative_jes_sigma_rejected:
  "\<not> config_invalid module_config \<and>
   (JES_SIGMA cfg < 0 \<and> 0 < N_DATASETS_PER_TYPE cfg \<and>
      read_table d INPUT_PARQUET = Inr base0 \<longrightarrow>
        sample_jes cfg g 0 = Inl ValueError \<and>
        main cfg syst g d = (Some ValueError, d)) \<and>
   (0 \<le> JES_SIGMA cfg \<longrightarrow>
      sample_jes cfg g p
        = Inr (np_clip (JES_SIGMA cfg * g p) (JES_MIN cfg) (JES_MAX cfg), Suc p)) \<and>
   (0 \<le> MET_LOGNORM_SIGMA cfg \<longrightarrow>
      (\<exists>px py. sample_met cfg g p = Inr ((px, py), Suc (Suc p))))"
proof -
  have valid: "\<not> config_invalid module_config"
    by (simp add: config_invalid_def module_config_def)
  have neg: "sample_jes cfg g 0 = Inl ValueError \<and> main cfg syst g d = (Some ValueError, d)"
    if s: "JES_SIGMA cfg < 0" and n: "0 < N_DATASETS_PER_TYPE cfg"
      and rd: "read_table d INPUT_PARQUET = Inr base0"
  proof -
    let ?base = "table_slice base0 0 (BASE_SLICE cfg)"
    have sj: "sample_jes cfg g 0 = Inl ValueError"
      using s by (simp add: sample_jes_def np_random_normal_def)
    then have "cycle_raises (jes_only_cycle cfg syst g ?base) ([], 0) 0 ValueError"
      by (simp add: cycle_raises_def jes_only_cycle_def)
    from cycle_raises_loop [OF n this]
    have "main cfg syst g d = (Some ValueError, d)"
      unfolding main_def rd or_abort_Inr Let_def by simp
    with sj show ?thesis ..
  qed
  have zj: "sample_jes cfg g p
        = Inr (np_clip (JES_SIGMA cfg * g p) (JES_MIN cfg) (JES_MAX cfg), Suc p)"
    if "0 \<le> JES_SIGMA cfg"
    using that by (simp add: sample_jes_def np_random_normal_def)
  have zm: "\<exists>px py. sample_met cfg g p = Inr ((px, py), Suc (Suc p))"
    if "0 \<le> MET_LOGNORM_SIGMA cfg"
    using that by (simp add: sample_met_def np_random_lognormal_def)
  from valid neg zj zm show ?thesis by blast
qed

theorem negative_jes_sigma_rejected_witness:
  "JES_SIGMA negative_sigma_config < 0 \<and>
   main negative_sigma_config failing_applier zero_draws demo_disk = (Some ValueError, demo_disk)"
proof -
  have s: "JES_SIGMA negative_sigma_config < 0"
    by (simp add: negative_sigma_config_def)
  have n: "0 < N_DATASETS_PER_TYPE negative_sigma_config"
    by (simp add: negative_sigma_config_def demo_config_def)
  from negative_jes_sigma_rejected [of negative_sigma_config demo_disk demo_base zero_draws
      failing_applier] s n read_demo
  show ?thesis by blast
qed

text \<open>
  Claim C7. Let the base table be readable. If a cycle of the JES-only family
  raises, the run ends with that exception and the file system unchanged. If the
  JES-only family completed and was written and a cycle of the MET-only family
  raises, the run ends with that exception and the file system differs from the
  initial one in the JES-only file alone. If both completed and a cycle of the
  JES+MET family raises, the file system differs in the JES-only and MET-only
  files alone. Whenever the file of a family differs from its initial content
  after the run, the loops of the families before it and its own loop, started
  where the previous one left the random source, have completed all \<open>N\<close> cycles.
\<close>

theorem failed_family_not_written:
  assumes rd: "read_table d INPUT_PARQUET = Inr base0"
    and base: "base = table_slice base0 0 (BASE_SLICE cfg)"
    and N: "N = N_DATASETS_PER_TYPE cfg"
  shows
    "(\<forall>i e. i < N \<and> cycle_raises (jes_only_cycle cfg syst g base) ([], 0) i e \<longrightarrow>
        main cfg syst g d = (Some e, d)) \<and>
     (\<forall>ts1 p1 t1 i e.
        for_range [0..<N] (jes_only_cycle cfg syst g base) ([], 0) = Inr (ts1, p1) \<and>
        concat_tables ts1 = Inr t1 \<and>
        i < N \<and> cycle_raises (met_only_cycle cfg syst g base) ([], p1) i e \<longrightarrow>
        main cfg syst g d = (Some e, d(OUTPUT_JES_ONLY \<mapsto> t1))) \<and>
     (\<forall>ts1 p1 t1 ts2 p2 t2 i e.
        for_range [0..<N] (jes_only_cycle cfg syst g base) ([], 0) = Inr (ts1, p1) \<and>
        concat_tables ts1 = Inr t1 \<and>
        for_range [0..<N] (met_only_cycle cfg syst g base) ([], p1) = Inr (ts2, p2) \<and>
        concat_tables ts2 = Inr t2 \<and>
        i < N \<and> cycle_raises (jes_met_cycle cfg syst g base) ([], p2) i e \<longrightarrow>
        main cfg syst g d = (Some e, d(OUTPUT_JES_ONLY \<mapsto> t1, OUTPUT_MET_ONLY \<mapsto> t2))) \<and>
     (snd (main cfg syst g d) OUTPUT_JES_ONLY \<noteq> d OUTPUT_JES_ONLY \<longrightarrow>
        (\<exists>ts p'. for_range [0..<N] (jes_only_cycle cfg syst g base) ([], 0) = Inr (ts, p') \<and>
           length ts = N)) \<and>
     (snd (main cfg syst g d) OUTPUT_MET_ONLY \<noteq> d OUTPUT_MET_ONLY \<longrightarrow>
        (\<exists>ts1 p1 ts p'.
           for_range [0..<N] (jes_only_cycle cfg syst g base) ([], 0) = Inr (ts1, p1) \<and>
           for_range [0..<N] (met_only_cycle cfg syst g base) ([], p1) = Inr (ts, p') \<and>
           length ts = N)) \<and>
     (snd (main cfg syst g d) OUTPUT_JES_MET \<noteq> d OUTPUT_JES_MET \<longrightarrow>
        (\<exists>ts1 p1 ts2 p2 ts p'.
           for_range [0..<N] (jes_only_cycle cfg syst g base) ([], 0) = Inr (ts1, p1) \<and>
           for_range [0..<N] (met_only_cycle cfg syst g base) ([], p1) = Inr (ts2, p2) \<and>
           for_range [0..<N] (jes_met_cycle cfg syst g base) ([], p2) = Inr (ts, p') \<and>
           length ts = N))"
proof -
  let ?J = "for_range [0..<N] (jes_only_cycle cfg syst g base) ([], 0)"
  let ?M = "\<lambda>p. for_range [0..<N] (met_only_cycle cfg syst g base) ([], p)"
  let ?K = "\<lambda>p. for_range [0..<N] (jes_met_cycle cfg syst g base) ([], p)"
  have m: "main cfg syst g d =
      or_abort ?J d (\<lambda>(ts1, p1).
      or_abort (concat_tables ts1) d (\<lambda>t1.
      or_abort (?M p1) (d(OUTPUT_JES_ONLY \<mapsto> t1)) (\<lambda>(ts2, p2).
      or_abort (concat_tables ts2) (d(OUTPUT_JES_ONLY \<mapsto> t1)) (\<lambda>t2.
      or_abort (?K p2) (d(OUTPUT_JES_ONLY \<mapsto> t1, OUTPUT_MET_ONLY \<mapsto> t2)) (\<lambda>(ts3, p3).
      or_abort (concat_tables ts3) (d(OUTPUT_JES_ONLY \<mapsto> t1, OUTPUT_MET_ONLY \<mapsto> t2)) (\<lambda>t3.
      (None, d(OUTPUT_JES_ONLY \<mapsto> t1, OUTPUT_MET_ONLY \<mapsto> t2, OUTPUT_JES_MET \<mapsto> t3))))))))"
    unfolding main_def rd or_abort_Inr Let_def write_table_def base N ..
  have p1: "main cfg syst g d = (Some e, d)"
    if "i < N" "cycle_raises (jes_only_cycle cfg syst g base) ([], 0) i e" for i e
    using cycle_raises_loop [OF that] by (simp add: m)
  have p2: "main cfg syst g d = (Some e, d(OUTPUT_JES_ONLY \<mapsto> t1))"
    if "?J = Inr (ts1, p1)" "concat_tables ts1 = Inr t1"
      "i < N" "cycle_raises (met_only_cycle cfg syst g base) ([], p1) i e" for ts1 p1 t1 i e
    using cycle_raises_loop [OF that(3,4)] that(1,2) by (simp add: m)
  have p3: "main cfg syst g d = (Some e, d(OUTPUT_JES_ONLY \<mapsto> t1, OUTPUT_MET_ONLY \<mapsto> t2))"
    if "?J = Inr (ts1, p1)" "concat_tables ts1 = Inr t1"
      "?M p1 = Inr (ts2, p2)" "concat_tables ts2 = Inr t2"
      "i < N" "cycle_raises (jes_met_cycle cfg syst g base) ([], p2) i e"
    for ts1 p1 t1 ts2 p2 t2 i e
    using cycle_raises_loop [OF that(5,6)] that(1-4) by (simp add: m)
  have w1: "\<exists>ts p'. for_range [0..<N] (jes_only_cycle cfg syst g base) ([], 0) = Inr (ts, p')
              \<and> length ts = N"
    if "snd (main cfg syst g d) OUTPUT_JES_ONLY \<noteq> d OUTPUT_JES_ONLY"
  proof (cases ?J)
    case (Inl e)
    with that show ?thesis by (simp add: m)
  next
    case (Inr s)
    obtain ts p' where s: "s = (ts, p')" by (cases s)
    from jes_only_cycle_length [OF Inr [unfolded s]] Inr s show ?thesis by auto
  qed
  have w2: "\<exists>ts1 p1 ts p'. ?J = Inr (ts1, p1) \<and> ?M p1 = Inr (ts, p') \<and> length ts = N"
    if neq: "snd (main cfg syst g d) OUTPUT_MET_ONLY \<noteq> d OUTPUT_MET_ONLY"
  proof -
    from neq obtain ts1 p1 t1 where J: "?J = Inr (ts1, p1)" and c1: "concat_tables ts1 = Inr t1"
      by (auto simp: m or_abort_def split: sum.splits)
    show ?thesis
    proof (cases "?M p1")
      case (Inl e)
      with neq J c1 output_names_distinct show ?thesis by (simp add: m)
    next
      case (Inr s)
      obtain ts p' where s: "s = (ts, p')" by (cases s)
      from met_only_cycle_length [OF Inr [unfolded s]] Inr s J show ?thesis by auto
    qed
  qed
  have w3: "\<exists>ts1 p1 ts2 p2 ts p'. ?J = Inr (ts1, p1) \<and> ?M p1 = Inr (ts2, p2) \<and>
              ?K p2 = Inr (ts, p') \<and> length ts = N"
    if neq: "snd (main cfg syst g d) OUTPUT_JES_MET \<noteq> d OUTPUT_JES_MET"
  proof -
    from neq obtain ts1 p1 t1 where J: "?J = Inr (ts1, p1)" and c1: "concat_tables ts1 = Inr t1"
      by (auto simp: m or_abort_def split: sum.splits)
    from neq J c1 output_names_distinct
    obtain ts2 p2 t2 where M: "?M p1 = Inr (ts2, p2)" and c2: "concat_tables ts2 = Inr t2"
      by (auto simp: m or_abort_def split: sum.splits)
    show ?thesis
    proof (cases "?K p2")
      case (Inl e)
      with neq J c1 M c2 output_names_distinct show ?thesis by (simp add: m)
    next
      case (Inr s)
      obtain ts p' where s: "s = (ts, p')" by (cases s)
      from jes_met_cycle_length [OF Inr [unfolded s]] Inr s J M show ?thesis by auto
    qed
  qed
  from p1 p2 p3 w1 w2 w3 show ?thesis by blast
qed

theorem failed_family_not_written_witness:
  "main demo_config met_failing_applier zero_draws demo_disk
     = (Some (Raised ''met''), demo_disk(OUTPUT_JES_ONLY \<mapsto> demo_family (F32 0) (F32 0) (F32 0)))"
proof -
  have n: "2 = N_DATASETS_PER_TYPE demo_config"
    by (simp add: demo_config_def)
  have base: "demo_base = table_slice demo_base 0 (BASE_SLICE demo_config)"
    by (simp add: slice_demo)
  have pos: "(0::nat) < 2" by simp
  have cat: "concat_tables [demo_annotated (F32 0) (F32 0) (F32 0) 0, demo_annotated (F32 0) (F32 0) (F32 0) 1]
               = Inr (demo_family (F32 0) (F32 0) (F32 0))"
    by (rule concat_demo)
  from failed_family_not_written [OF read_demo base n,
      of met_failing_applier zero_draws]
  have "\<forall>ts1 p1 t1 i e.
        for_range [0..<2] (jes_only_cycle demo_config met_failing_applier zero_draws demo_base)
          ([], 0) = Inr (ts1, p1) \<and>
        concat_tables ts1 = Inr t1 \<and>
        i < 2 \<and> cycle_raises (met_only_cycle demo_config met_failing_applier zero_draws demo_base)
          ([], p1) i e \<longrightarrow>
        main demo_config met_failing_applier zero_draws demo_disk
          = (Some e, demo_disk(OUTPUT_JES_ONLY \<mapsto> t1))"
    by blast
  with jes_loop_met_failing cat pos met_cycle_met_failing show ?thesis by blast
qed

text \<open>
  Claim C8. The variant applier being a function of its arguments, two runs on
  the same file system with the same configuration, whose random sources agree on
  the \<open>6 * N\<close> draws a run can consume, end with the same outcome and the same
  files.
\<close>

theorem main_deterministic:
  assumes agree: "\<forall>i < 6 * N_DATASETS_PER_TYPE cfg. g1 i = g2 i"
  shows "main cfg syst g1 d = main cfg syst g2 d"
proof (cases "read_table d INPUT_PARQUET")
  case (Inl e)
  then show ?thesis by (simp add: main_def)
next
  case (Inr base0)
  let ?N = "N_DATASETS_PER_TYPE cfg"
  let ?base = "table_slice base0 0 (BASE_SLICE cfg)"
  let ?J = "\<lambda>g. for_range [0..<?N] (jes_only_cycle cfg syst g ?base) ([], 0)"
  let ?M = "\<lambda>g p. for_range [0..<?N] (met_only_cycle cfg syst g ?base) ([], p)"
  let ?K = "\<lambda>g p. for_range [0..<?N] (jes_met_cycle cfg syst g ?base) ([], p)"
  have J: "?J g1 = ?J g2"
  proof (rule for_range_cong [where c = 1 and ?g1.0 = g1 and ?g2.0 = g2])
    show "jes_only_cycle cfg syst g1 ?base i (ts, p) = jes_only_cycle cfg syst g2 ?base i (ts, p)"
      if "\<forall>q. p \<le> q \<and> q < p + 1 \<longrightarrow> g1 q = g2 q" for i ts p
      using that by (rule jes_only_cycle_cong)
    show "p' = p + 1" if "jes_only_cycle cfg syst g2 ?base i (ts, p) = Inr (ts', p')"
      for i ts p ts' p'
      using that by (rule jes_only_cycle_pos)
    show "\<forall>q. 0 \<le> q \<and> q < 0 + 1 * length [0..<?N] \<longrightarrow> g1 q = g2 q"
      using agree by simp
  qed
  have M: "?M g1 ?N = ?M g2 ?N"
  proof (rule for_range_cong [where c = 2 and ?g1.0 = g1 and ?g2.0 = g2])
    show "met_only_cycle cfg syst g1 ?base i (ts, p) = met_only_cycle cfg syst g2 ?base i (ts, p)"
      if "\<forall>q. p \<le> q \<and> q < p + 2 \<longrightarrow> g1 q = g2 q" for i ts p
      using that by (rule met_only_cycle_cong)
    show "p' = p + 2" if "met_only_cycle cfg syst g2 ?base i (ts, p) = Inr (ts', p')"
      for i ts p ts' p'
      using that by (rule met_only_cycle_pos)
    show "\<forall>q. ?N \<le> q \<and> q < ?N + 2 * length [0..<?N] \<longrightarrow> g1 q = g2 q"
      using agree by simp
  qed
  have K: "?K g1 (3 * ?N) = ?K g2 (3 * ?N)"
  proof (rule for_range_cong [where c = 3 and ?g1.0 = g1 and ?g2.0 = g2])
    show "jes_met_cycle cfg syst g1 ?base i (ts, p) = jes_met_cycle cfg syst g2 ?base i (ts, p)"
      if "\<forall>q. p \<le> q \<and> q < p + 3 \<longrightarrow> g1 q = g2 q" for i ts p
      using that by (rule jes_met_cycle_cong)
    show "p' = p + 3" if "jes_met_cycle cfg syst g2 ?base i (ts, p) = Inr (ts', p')"
      for i ts p ts' p'
      using that by (rule jes_met_cycle_pos)
    show "\<forall>q. 3 * ?N \<le> q \<and> q < 3 * ?N + 3 * length [0..<?N] \<longrightarrow> g1 q = g2 q"
      using agree by simp
  qed
  have Jp: "p = ?N" if "?J g2 = Inr (ts, p)" for ts p
    using for_range_pos [where c = 1 and body = "jes_only_cycle cfg syst g2 ?base", OF _ that]
      jes_only_cycle_pos [of cfg syst g2 ?base] by simp
  have Mp: "p = 3 * ?N" if "?M g2 ?N = Inr (ts, p)" for ts p
    using for_range_pos [where c = 2 and body = "met_only_cycle cfg syst g2 ?base", OF _ that]
      met_only_cycle_pos [of cfg syst g2 ?base] by simp
  show ?thesis
  proof (cases "?J g2")
    case Jl: (Inl e)
    then show ?thesis unfolding main_def Inr by (simp add: J)
  next
    case Jr: (Inr s1)
    obtain ts1 p1 where s1: "s1 = (ts1, p1)" by (cases s1)
    from Jp [OF Jr [unfolded s1]] have p1: "p1 = ?N" .
    show ?thesis
    proof (cases "?M g2 ?N")
      case Ml: (Inl e)
      then show ?thesis unfolding main_def Inr
        by (simp add: J Jr s1 p1 M Let_def or_abort_def split: sum.splits)
    next
      case Mr: (Inr s2)
      obtain ts2 p2 where s2: "s2 = (ts2, p2)" by (cases s2)
      from Mp [OF Mr [unfolded s2]] have p2: "p2 = 3 * ?N" .
      show ?thesis unfolding main_def Inr
        by (simp add: J Jr s1 p1 M Mr s2 p2 K Let_def or_abort_def split: sum.splits)
    qed
  qed
qed

theorem main_deterministic_witness:
  "main demo_config identity_applier zero_draws demo_disk
     = main demo_config identity_applier late_draws demo_disk"
proof -
  have "\<forall>i < 6 * N_DATASETS_PER_TYPE demo_config. zero_draws i = late_draws i"
    by (simp add: demo_config_def zero_draws_def late_draws_def)
  then show ?thesis by (rule main_deterministic)
qed

text \<open>
  Claim C9. For \<open>jes = 0\<close> the transformation of the entry built by
  \<open>make_jes_object_shift\<close>, applied to a value and the scale of the entry, returns
  the value unchanged.
\<close>

theorem jes_zero_shift_identity:
  "\<exists>e. make_jes_object_shift 0 = [(''jet_pt'', e)] \<and> shift_scale e = 0 \<and>
       (\<forall>v. shift_apply e v 0 = v) \<and> (\<forall>v. shift_apply e v (shift_scale e) = v)"
  by (simp add: make_jes_object_shift_def)

theorem jes_zero_shift_identity_witness:
  "\<exists>e. make_jes_object_shift 0 = [(''jet_pt'', e)] \<and> shift_apply e 30 (shift_scale e) = 30"
  using jes_zero_shift_identity by auto

text \<open>
  Claim C10, as stated for every input table, fails: on a table with two rows a
  tag that does not fit in 64 signed bits makes \<open>add_syst_columns\<close> raise.
\<close>

theorem add_syst_columns_tag_overflow:
  "num_rows demo_base = 2 \<and>
   add_syst_columns demo_base 0 0 0 (2 ^ 63) = Inl OverflowError"
  by (simp add: add_syst_columns_eq fits_int64_def demo_base_def)

text \<open>
  Claim C10, amended. For every table and every tag that fits in 64 signed bits,
  and for every table without rows and any tag, \<open>add_syst_columns\<close> returns a
  table and does not raise. The result has the row count of the input and four
  more columns; each appended column has one cell per row of the input, so it is
  empty when the input has no rows; a well-formed input gives a well-formed
  result.
\<close>

theorem add_syst_columns_preserves_rows:
  assumes "fits_int64 tag \<or> num_rows t = 0"
  shows "\<exists>t'. add_syst_columns t jes met_px met_py tag = Inr t' \<and>
     num_rows t' = num_rows t \<and>
     length (columns t') = length (columns t) + 4 \<and>
     (\<forall>c \<in> set (drop (length (columns t)) (columns t')).
        length (col_values c) = num_rows t \<and> (num_rows t = 0 \<longrightarrow> col_values c = [])) \<and>
     (wf_table t \<longrightarrow> wf_table t')"
  using assms by (auto simp: add_syst_columns_eq syst_columns_def wf_table_def)

theorem add_syst_columns_preserves_rows_witness:
  "(\<exists>t'. add_syst_columns demo_base (5 / 100) 1 (1 / 2) 49 = Inr t' \<and> num_rows t' = 2 \<and>
      length (columns t') = 5 \<and> wf_table t' \<and>
      (\<forall>c \<in> set (drop 1 (columns t')). length (col_values c) = 2)) \<and>
   (\<exists>t'. add_syst_columns empty_base 0 0 0 (2 ^ 63) = Inr t' \<and> num_rows t' = 0 \<and>
      length (columns t') = 5 \<and> wf_table t' \<and>
      (\<forall>c \<in> set (drop 1 (columns t')). col_values c = []))"
proof -
  have f: "fits_int64 49" by (simp add: fits_int64_def)
  have n2: "num_rows demo_base = 2" by (simp add: demo_base_def)
  have l2: "length (columns demo_base) = 1" by (simp add: demo_base_def)
  have w2: "wf_table demo_base" by (simp add: demo_base_def wf_table_def)
  have n: "num_rows empty_base = 0" by (simp add: empty_base_def)
  have l: "length (columns empty_base) = 1" by (simp add: empty_base_def)
  have w: "wf_table empty_base" by (simp add: empty_base_def wf_table_def)
  from f have "fits_int64 49 \<or> num_rows demo_base = 0" ..
  from add_syst_columns_preserves_rows [OF this, of "5 / 100" 1 "1 / 2"] w2
  have full: "\<exists>t'. add_syst_columns demo_base (5 / 100) 1 (1 / 2) 49 = Inr t' \<and>
      num_rows t' = 2 \<and> length (columns t') = 5 \<and> wf_table t' \<and>
      (\<forall>c \<in> set (drop 1 (columns t')). length (col_values c) = 2)"
    unfolding l2 n2 by auto
  from n have "fits_int64 (2 ^ 63) \<or> num_rows empty_base = 0" ..
  from add_syst_columns_preserves_rows [OF this, of 0 0 0] n w
  have none: "\<exists>t'. add_syst_columns empty_base 0 0 0 (2 ^ 63) = Inr t' \<and> num_rows t' = 0 \<and>
      length (columns t') = 5 \<and> wf_table t' \<and>
      (\<forall>c \<in> set (drop 1 (columns t')). col_values c = [])"
    unfolding l by auto
  from full none show ?thesis ..
qed

end
